theory Spec2Isabelle
  imports Main
begin

section \<open>Data model of base-routes (index.js)\<close>

text \<open>
  The plugin installs \<^verbatim>\<open>handle\<close>, \<^verbatim>\<open>handleOnce\<close> and \<^verbatim>\<open>handleError\<close> on a host
  application. All three work through callbacks and mutate the file and the error object
  they are given. The embedding passes the file and an event trace as explicit state, passes
  an error object by value and hands it back as the call left it, and turns every
  \<^verbatim>\<open>throw\<close> into the result \<open>Threw\<close>.
\<close>

subsection \<open>Errors\<close>

datatype fileref = FileRef

text \<open>
  A JavaScript error object, with the fields the plugin reads or writes:
  \<^verbatim>\<open>err.stack\<close>, \<^verbatim>\<open>err._handled === true\<close>, \<^verbatim>\<open>err.source\<close>, \<^verbatim>\<open>err.reason\<close>,
  \<^verbatim>\<open>err.file\<close> (a back-reference to the dispatched file) and whether
  \<^verbatim>\<open>err instanceof ReferenceError\<close>.
\<close>

record jserror =
  message :: string
  is_reference :: bool
  stack :: "string option"
  ehandled :: bool
  source :: "string option"
  reason :: "string option"
  efile :: "fileref option"

subsection \<open>Hosts, values and callbacks\<close>

text \<open>
  What a callback reads from the application it closes over:
  \<^verbatim>\<open>app._name\<close>, \<^verbatim>\<open>app.isTemplates\<close>, \<^verbatim>\<open>app.isCollection\<close> and
  \<^verbatim>\<open>app.hasListeners('error')\<close>.
\<close>

record app =
  aname :: string
  isTemplates :: bool
  isCollection :: bool
  error_listeners :: bool

text \<open>
  A value passed where a callback is expected: \<^verbatim>\<open>undefined\<close>, a string (falsy when
  empty, never callable) or a function. Functions are the caller's own (opaque, identified
  by a number; calling one is recorded in the trace and returns) and the three closures
  index.js itself builds: the fallback of \<^verbatim>\<open>handle\<close> (lines 59-63), the function it
  passes to \<^verbatim>\<open>handleError\<close> (lines 60-62) and the function \<^verbatim>\<open>handleError\<close>
  returns (lines 136-175), which closes over \<^verbatim>\<open>app\<close>, \<^verbatim>\<open>method\<close> and
  \<^verbatim>\<open>next\<close>. Line 137 assigns to that \<^verbatim>\<open>next\<close>, so the closure has a state: the
  third argument of \<open>HandleErrorCb\<close> is the value \<^verbatim>\<open>next\<close> holds now, and a call
  gives back the closure as it is afterwards.
\<close>

datatype jsval = JUndefined | JString string | JFun callback
and callback =
    User nat
  | Fallback app string
  | Thrower "jserror option"
  | HandleErrorCb app string jsval

text \<open>A value stored by the caller in \<^verbatim>\<open>file.next\<close>.\<close>

datatype uval = UUndefined | UString string | UFun nat

fun of_uval :: "uval \<Rightarrow> jsval" where
  "of_uval UUndefined = JUndefined"
| "of_uval (UString s) = JString s"
| "of_uval (UFun n) = JFun (User n)"

fun truthy :: "jsval \<Rightarrow> bool" where
  "truthy JUndefined = False"
| "truthy (JString s) = (s \<noteq> [])"
| "truthy (JFun k) = True"

fun is_function :: "jsval \<Rightarrow> bool" where
  "is_function (JFun k) = True"
| "is_function v = False"

subsection \<open>Files\<close>

record file_options =
  handled :: "string list option"
  method_name :: "string option"
  collection :: "string option"

record jsfile =
  path :: string
  basename :: string
  content :: string
  data :: "(string \<times> string) list"
  options :: "file_options option"
  nxt :: uval

definition empty_options :: file_options where
  "empty_options = \<lparr>handled = None, method_name = None, collection = None\<rparr>"

subsection \<open>The route engine, the rethrow facility and hosts\<close>

text \<open>
  \<^verbatim>\<open>router.handle(file, cb)\<close> belongs to en-route. It runs the middleware that matches
  the file and then calls \<open>cb\<close> with an error, calls it with none, or never calls it.
  The model takes that behaviour as a parameter of the host, a function of the file as
  the router receives it; what middleware writes into the file is not modelled.
\<close>

datatype router_result = Done "jserror option" | Hang

text \<open>
  \<^verbatim>\<open>rethrow(content, data)\<close> belongs to template-error: \<open>Some e\<close> when it throws
  \<open>e\<close>, \<open>None\<close> when it returns.
\<close>

type_synonym rethrow_fn = "string \<Rightarrow> (string \<times> string) list \<Rightarrow> jserror option"

text \<open>
  A host: what callbacks read from it, its router and the collections it owns, looked up by
  name as \<^verbatim>\<open>this[file.options.collection]\<close>. A collection is a host too: line 81 tests
  \<^verbatim>\<open>this.isCollection\<close>, so \<^verbatim>\<open>handle\<close> runs with a collection as \<^verbatim>\<open>this\<close>, and
  \<^verbatim>\<open>collection.handle\<close> at line 94 is the function defined at line 54.
\<close>

datatype host = Host (happ: app) (router: "jsfile \<Rightarrow> router_result") (collections: "(string \<times> host) list")

subsection \<open>State, events and results\<close>

datatype call_args = NoArgs | NullFile | ErrArg jserror

fun first_arg :: "call_args \<Rightarrow> jserror option" where
  "first_arg NoArgs = None"
| "first_arg NullFile = None"
| "first_arg (ErrArg e) = Some e"

datatype event =
    Emit string string
  | EmitError string jserror
  | RouterHandle string
  | RouterDone string "jserror option"
  | Called nat call_args
  | Rethrow string "(string \<times> string) list"

record state =
  sfile :: jsfile
  trace :: "event list"

datatype exn = TypeError string | Thrown "jserror option"

datatype outcome = Returned | Threw exn

definition emit :: "event \<Rightarrow> state \<Rightarrow> state" where
  "emit ev s = s\<lparr>trace := trace s @ [ev]\<rparr>"

section \<open>String helpers\<close>

text \<open>
  \<^verbatim>\<open>str.split('\n')\<close>: never empty, one more piece than there are newlines.
  \<^verbatim>\<open>str.trim()\<close> drops white space and line terminators at both ends. A character of
  the model is a code unit below 256; of what \<^verbatim>\<open>trim\<close> drops, these are tab, line
  feed, vertical tab, form feed, carriage return, space and the no-break space U+00A0.
\<close>

fun split_nl :: "string \<Rightarrow> string list" where
  "split_nl [] = [[]]"
| "split_nl (c # cs) =
     (if c = CHR 0x0A then [] # split_nl cs
      else (case split_nl cs of [] \<Rightarrow> [[c]] | l # ls \<Rightarrow> (c # l) # ls))"

definition is_space :: "char \<Rightarrow> bool" where
  "is_space c = (c \<in> set [CHR 0x09, CHR 0x0A, CHR 0x0B, CHR 0x0C, CHR 0x0D, CHR 0x20, CHR 0xA0])"

definition trim :: "string \<Rightarrow> string" where
  "trim s = rev (dropWhile is_space (rev (dropWhile is_space s)))"

text \<open>
  \<^verbatim>\<open>err.stack.split('\n')[1]\<close> (line 150): reading \<^verbatim>\<open>split\<close> of an absent stack
  raises, and so does \<^verbatim>\<open>trim\<close> of the \<^verbatim>\<open>undefined\<close> that index 1 gives when there
  is no second line.
\<close>

definition second_line :: "string option \<Rightarrow> exn + string" where
  "second_line st =
     (case st of
        None \<Rightarrow> Inl (TypeError ''Cannot read property split of undefined'')
      | Some t \<Rightarrow>
          (case split_nl t of
             _ # l # _ \<Rightarrow> Inr l
           | _ \<Rightarrow> Inl (TypeError ''Cannot read property trim of undefined'')))"

section \<open>handleError (lines 134-176)\<close>

text \<open>\<^verbatim>\<open>handleError(method, file, next)\<close> only builds the closure.\<close>

definition handleError :: "app \<Rightarrow> string \<Rightarrow> jsval \<Rightarrow> callback" where
  "handleError a m nx = HandleErrorCb a m nx"

text \<open>Line 137: \<^verbatim>\<open>next = next || file.next\<close>.\<close>

definition resolve_next :: "jsval \<Rightarrow> jsfile \<Rightarrow> jsval" where
  "resolve_next nx f = (if truthy nx then nx else of_uval (nxt f))"

text \<open>Line 151.\<close>

definition reason_of :: "app \<Rightarrow> string \<Rightarrow> jsfile \<Rightarrow> string" where
  "reason_of a m f = aname a @ ''#handle('' @ [CHR 0x22] @ m @ [CHR 0x22] @ ''): '' @ path f"

text \<open>Lines 150-152, after line 149 has set the flag.\<close>

definition enrich :: "app \<Rightarrow> string \<Rightarrow> jsfile \<Rightarrow> jserror \<Rightarrow> exn + jserror" where
  "enrich a m f e =
     (case second_line (stack e) of
        Inl x \<Rightarrow> Inl x
      | Inr l \<Rightarrow> Inr (e\<lparr>source := Some (trim l), reason := Some (reason_of a m f),
                         efile := Some FileRef\<rparr>))"

text \<open>
  Every path through the returned function ends in a \<^verbatim>\<open>throw\<close> or in one call of
  \<^verbatim>\<open>next\<close> followed by \<^verbatim>\<open>return\<close>.
\<close>

datatype action = Raise exn | CallNext callback call_args

text \<open>
  The body of the returned function (lines 137-174), up to that last step: the step, the
  value of the closure's \<^verbatim>\<open>next\<close> after the assignment of line 137, the error object
  as the body leaves it, and the state.
\<close>

definition handleError_body ::
  "rethrow_fn \<Rightarrow> app \<Rightarrow> string \<Rightarrow> jsval \<Rightarrow> jserror option \<Rightarrow> state \<Rightarrow>
     action \<times> jsval \<times> jserror option \<times> state" where
  "handleError_body rt a m nx err s =
     (let next1 = resolve_next nx (sfile s) in
      case next1 of
        JUndefined \<Rightarrow> (Raise (TypeError ''expected a callback function''), next1, err, s)
      | JString v \<Rightarrow> (Raise (TypeError ''expected a callback function''), next1, err, s)
      | JFun k \<Rightarrow>
          (case err of
             None \<Rightarrow> (CallNext k NullFile, next1, None, s)
           | Some e \<Rightarrow>
               if ehandled e then (CallNext k NoArgs, next1, Some e, s)
               else
                 (let e1 = e\<lparr>ehandled := True\<rparr> in
                  case enrich a m (sfile s) e1 of
                    Inl x \<Rightarrow> (Raise x, next1, Some e1, s)
                  | Inr e2 \<Rightarrow>
                      (let s1 = (if error_listeners a then emit (EmitError (aname a) e2) s else s) in
                       if \<not> is_function next1 then (Raise (Thrown (Some e2)), next1, Some e2, s1)
                       else if is_reference e2 then
                         (let s2 = emit (Rethrow (content (sfile s1)) (data (sfile s1))) s1 in
                          case rt (content (sfile s1)) (data (sfile s1)) of
                            Some e' \<Rightarrow> (CallNext k (ErrArg e'), next1, Some e2, s2)
                          | None \<Rightarrow> (CallNext k (ErrArg e2), next1, Some e2, s2))
                       else (CallNext k (ErrArg e2), next1, Some e2, s1)))))"

lemma handleError_body_size:
  "handleError_body rt a m nx err s = (CallNext k args, nx', e', s') \<Longrightarrow> size k < Suc (size nx)"
  by (cases nx; cases "nxt (sfile s)")
    (auto simp: handleError_body_def resolve_next_def Let_def
      split: if_splits option.splits sum.splits)

text \<open>
  Calling a callback. The result is whether the call returned or threw, the callback as
  the call left it, the error object passed as first argument as the call left it, and
  the state. A function of the caller's, the fallback and the function of lines 60-62
  have no state of their own. The closure of \<^verbatim>\<open>handleError\<close> keeps the value line 137
  gave its \<^verbatim>\<open>next\<close>; when that is a function which the body went on to call, it is
  that function as its own call left it.

  The fallback of \<^verbatim>\<open>handle\<close> calls \<^verbatim>\<open>app.handleError\<close>, which builds a closure, and
  drops the closure without calling it. The state holds one file, the one being
  dispatched, and the closures that are called close over it. After \<^verbatim>\<open>next(err)\<close> the
  error object is the one the body left: it is marked by then, and no callback changes a
  marked error (\<open>invoke_handled_error\<close> below).
\<close>

function invoke ::
  "rethrow_fn \<Rightarrow> callback \<Rightarrow> call_args \<Rightarrow> state \<Rightarrow> outcome \<times> callback \<times> jserror option \<times> state" where
  "invoke rt (User n) args s = (Returned, User n, first_arg args, emit (Called n args) s)"
| "invoke rt (Fallback a m) args s =
     (let unused = handleError a m (JFun (Thrower (first_arg args)))
      in (Returned, Fallback a m, first_arg args, s))"
| "invoke rt (Thrower e) args s = (Threw (Thrown e), Thrower e, first_arg args, s)"
| "invoke rt (HandleErrorCb a m nx) args s =
     (case handleError_body rt a m nx (first_arg args) s of
        (Raise x, nx', e', s') \<Rightarrow> (Threw x, HandleErrorCb a m nx', e', s')
      | (CallNext k args', nx', e', s') \<Rightarrow>
          (case invoke rt k args' s' of
             (res, k', e'', s'') \<Rightarrow> (res, HandleErrorCb a m (JFun k'), e', s'')))"
  by pat_completeness auto
termination
  by (relation "measure (\<lambda>(rt, cb, args, s). size cb)")
    (auto dest: handleError_body_size [OF sym])

section \<open>handle (lines 54-96)\<close>

text \<open>
  Line 55 writes a debug line and line 56 makes sure the router exists; neither shows in
  the state of the model, where a host always has its router.

  Lines 66-73: \<^verbatim>\<open>file.options\<close> and \<^verbatim>\<open>file.options.handled\<close> are created when
  absent, the method is recorded and pushed.
\<close>

definition prepare :: "string \<Rightarrow> jsfile \<Rightarrow> jsfile" where
  "prepare m f =
     (let opts = (case options f of None \<Rightarrow> empty_options | Some opts0 \<Rightarrow> opts0);
          hs = (case handled opts of None \<Rightarrow> [] | Some h \<Rightarrow> h)
      in f\<lparr>options := Some (opts\<lparr>method_name := Some m, handled := Some (hs @ [m])\<rparr>)\<rparr>)"

text \<open>Line 81, the test for dispatching on the host's router only.\<close>

definition direct :: "app \<Rightarrow> jsfile \<Rightarrow> bool" where
  "direct a f =
     (\<not> isTemplates a \<or> isCollection a \<or>
      (case options f of
         None \<Rightarrow> True
       | Some opts \<Rightarrow> (case collection opts of None \<Rightarrow> True | Some c \<Rightarrow> c = [])))"

definition collection_name :: "jsfile \<Rightarrow> string" where
  "collection_name f =
     (case options f of
        None \<Rightarrow> []
      | Some opts \<Rightarrow> (case collection opts of None \<Rightarrow> [] | Some c \<Rightarrow> c))"

lemma map_of_host_size:
  "map_of cs n = Some c \<Longrightarrow> size c < Suc (size_list (size_prod (\<lambda>x. 0) size) cs)"
  by (induction cs) (auto split: if_splits)

function handle :: "rethrow_fn \<Rightarrow> host \<Rightarrow> string \<Rightarrow> jsval \<Rightarrow> state \<Rightarrow> outcome \<times> state" where
  "handle rt (Host a r cs) m nx s =
     (let next1 = (if is_function nx then nx else JFun (Fallback a m));
          s1 = emit (Emit (aname a) m) (s\<lparr>sfile := prepare m (sfile s)\<rparr>);
          cb = handleError a m next1;
          s2 = emit (RouterHandle (aname a)) s1
      in if direct a (sfile s1) then
           (case r (sfile s2) of
              Hang \<Rightarrow> (Returned, s2)
            | Done e \<Rightarrow>
                (case invoke rt cb (case e of None \<Rightarrow> NoArgs | Some err \<Rightarrow> ErrArg err)
                        (emit (RouterDone (aname a) e) s2) of
                   (res, k', e', s') \<Rightarrow> (res, s')))
         else
           (case r (sfile s2) of
              Hang \<Rightarrow> (Returned, s2)
            | Done (Some err) \<Rightarrow>
                (case invoke rt cb (ErrArg err) (emit (RouterDone (aname a) (Some err)) s2) of
                   (res, k', e', s') \<Rightarrow> (res, s'))
            | Done None \<Rightarrow>
                (case map_of cs (collection_name (sfile s1)) of
                   None \<Rightarrow>
                     (Threw (TypeError ''Cannot read property handle of undefined''),
                      emit (RouterDone (aname a) None) s2)
                 | Some c \<Rightarrow> handle rt c m (JFun cb) (emit (RouterDone (aname a) None) s2))))"
  by pat_completeness auto
termination
  by (relation "measure (\<lambda>(rt, h, m, nx, s). size h)") (auto dest: map_of_host_size)

section \<open>handleOnce (lines 114-128)\<close>

definition handleOnce :: "rethrow_fn \<Rightarrow> host \<Rightarrow> string \<Rightarrow> jsval \<Rightarrow> state \<Rightarrow> outcome \<times> state" where
  "handleOnce rt h m nx s =
     (case options (sfile s) of
        None \<Rightarrow> (Threw (TypeError ''Cannot read property handled of undefined''), s)
      | Some opts \<Rightarrow>
          (let hs = (case handled opts of None \<Rightarrow> [] | Some h \<Rightarrow> h);
               s1 = s\<lparr>sfile := (sfile s)\<lparr>options := Some (opts\<lparr>handled := Some hs\<rparr>)\<rparr>\<rparr>;
               next1 = (if is_function nx then nx else of_uval (nxt (sfile s1)))
           in if m \<notin> set hs then handle rt h m next1 s1
              else
                (case next1 of
                   JFun k \<Rightarrow> (case invoke rt k NullFile s1 of (res, k', e', s') \<Rightarrow> (res, s'))
                 | JUndefined \<Rightarrow> (Threw (TypeError ''next is not a function''), s1)
                 | JString v \<Rightarrow> (Threw (TypeError ''next is not a function''), s1))))"

section \<open>Vocabulary for the statements\<close>

text \<open>
  \<^verbatim>\<open>file.options\<close> and \<^verbatim>\<open>file.options.handled\<close> as the code reads them, an absent
  mapping read as the empty one and an absent sequence as the empty sequence.
\<close>

definition opts_of :: "jsfile \<Rightarrow> file_options" where
  "opts_of f = (case options f of None \<Rightarrow> empty_options | Some opts \<Rightarrow> opts)"

definition handled_of :: "jsfile \<Rightarrow> string list" where
  "handled_of f = (case handled (opts_of f) of None \<Rightarrow> [] | Some h \<Rightarrow> h)"

text \<open>The file after \<open>k\<close> runs of lines 66-73 for the same method.\<close>

definition stamped :: "string \<Rightarrow> nat \<Rightarrow> jsfile \<Rightarrow> jsfile" where
  "stamped m k f =
     f\<lparr>options := Some ((opts_of f)\<lparr>method_name := Some m, handled := Some (handled_of f @ replicate k m)\<rparr>)\<rparr>"

text \<open>
  The state in which \<^verbatim>\<open>handle\<close> gives the file to the host's router (line 82 or 89),
  and the callback it has built by then (lines 58-64 and 77).
\<close>

definition entered :: "app \<Rightarrow> string \<Rightarrow> state \<Rightarrow> state" where
  "entered a m s =
     emit (RouterHandle (aname a)) (emit (Emit (aname a) m) (s\<lparr>sfile := prepare m (sfile s)\<rparr>))"

definition callback_of :: "app \<Rightarrow> string \<Rightarrow> jsval \<Rightarrow> callback" where
  "callback_of a m nx = handleError a m (if is_function nx then nx else JFun (Fallback a m))"

text \<open>The state after lines 115-117 of \<^verbatim>\<open>handleOnce\<close>, for a file that has options.\<close>

definition normalized :: "state \<Rightarrow> state" where
  "normalized s =
     (case options (sfile s) of
        None \<Rightarrow> s
      | Some opts \<Rightarrow>
          s\<lparr>sfile := (sfile s)\<lparr>options :=
            Some (opts\<lparr>handled := Some (case handled opts of None \<Rightarrow> [] | Some h \<Rightarrow> h)\<rparr>)\<rparr>\<rparr>)"

text \<open>The events of dispatch: the method's event and the router's start and end.\<close>

fun is_dispatch :: "event \<Rightarrow> bool" where
  "is_dispatch (Emit a m) = True"
| "is_dispatch (RouterHandle a) = True"
| "is_dispatch (RouterDone a e) = True"
| "is_dispatch ev = False"

text \<open>Calling \<^verbatim>\<open>handle\<close> or \<^verbatim>\<open>handleOnce\<close> \<open>n\<close> times in a row, whatever each call does.\<close>

fun handle_times :: "nat \<Rightarrow> rethrow_fn \<Rightarrow> host \<Rightarrow> string \<Rightarrow> jsval \<Rightarrow> state \<Rightarrow> state" where
  "handle_times 0 rt h m nx s = s"
| "handle_times (Suc n) rt h m nx s = handle_times n rt h m nx (snd (handle rt h m nx s))"

fun handleOnce_times :: "nat \<Rightarrow> rethrow_fn \<Rightarrow> host \<Rightarrow> string \<Rightarrow> jsval \<Rightarrow> state \<Rightarrow> state" where
  "handleOnce_times 0 rt h m nx s = s"
| "handleOnce_times (Suc n) rt h m nx s = handleOnce_times n rt h m nx (snd (handleOnce rt h m nx s))"

section \<open>Sample inputs\<close>

definition ex_app :: app where
  "ex_app = \<lparr>aname = ''app'', isTemplates = True, isCollection = False, error_listeners = True\<rparr>"

definition ex_pages :: app where
  "ex_pages = \<lparr>aname = ''pages'', isTemplates = True, isCollection = True, error_listeners = False\<rparr>"

definition ex_file :: jsfile where
  "ex_file = \<lparr>path = ''a.md'', basename = ''a.md'', content = ''abc'', data = [],
     options = None, nxt = UUndefined\<rparr>"

definition ex_page :: jsfile where
  "ex_page = ex_file\<lparr>options := Some \<lparr>handled = None, method_name = None, collection = Some ''pages''\<rparr>\<rparr>"

definition ex_error :: jserror where
  "ex_error = \<lparr>message = ''boom'', is_reference = False,
     stack = Some (''Error: boom'' @ [CHR 0x0A] @ ''    at render (a.js:1:1)''),
     ehandled = False, source = None, reason = None, efile = None\<rparr>"

definition ex_enriched :: jserror where
  "ex_enriched = ex_error\<lparr>ehandled := True, source := Some ''at render (a.js:1:1)'',
     reason := Some (''app#handle('' @ [CHR 0x22] @ ''onLoad'' @ [CHR 0x22] @ ''): a.md''),
     efile := Some FileRef\<rparr>"

definition ex_short_error :: jserror where
  "ex_short_error = ex_error\<lparr>stack := Some ''Error: boom''\<rparr>"

definition ex_mapped :: jserror where
  "ex_mapped = \<lparr>message = ''title is not defined in a.md'', is_reference = True,
     stack = None, ehandled = False, source = None, reason = None, efile = None\<rparr>"

definition ex_reference_error :: jserror where
  "ex_reference_error = \<lparr>message = ''title is not defined'', is_reference = True,
     stack = Some (''ReferenceError: title is not defined'' @ [CHR 0x0A] @ ''    at eval (a.md:1:1)''),
     ehandled = False, source = None, reason = None, efile = None\<rparr>"

definition ex_reference_enriched :: jserror where
  "ex_reference_enriched = ex_reference_error\<lparr>ehandled := True,
     source := Some ''at eval (a.md:1:1)'',
     reason := Some (''app#handle('' @ [CHR 0x22] @ ''preRender'' @ [CHR 0x22] @ ''): a.md''),
     efile := Some FileRef\<rparr>"

definition ex_short_reference_error :: jserror where
  "ex_short_reference_error =
     ex_reference_error\<lparr>stack := Some ''ReferenceError: title is not defined''\<rparr>"

definition ex_state :: state where
  "ex_state = \<lparr>sfile = ex_file, trace = []\<rparr>"

definition ex_ready :: state where
  "ex_ready = \<lparr>sfile = ex_file\<lparr>options := Some empty_options\<rparr>, trace = []\<rparr>"

definition ex_page_state :: state where
  "ex_page_state = \<lparr>sfile = ex_page, trace = []\<rparr>"

definition ex_rethrow :: rethrow_fn where
  "ex_rethrow c d = Some ex_mapped"

definition ex_quiet :: rethrow_fn where
  "ex_quiet c d = None"

definition ex_host :: host where
  "ex_host = Host ex_app (\<lambda>f. Done None) [(''pages'', Host ex_pages (\<lambda>f. Done None) [])]"

definition ex_failing_host :: host where
  "ex_failing_host = Host ex_app (\<lambda>f. Done (Some ex_error)) [(''pages'', Host ex_pages (\<lambda>f. Done None) [])]"

section \<open>What a call leaves alone\<close>

lemma emit_sfile [simp]: "sfile (emit ev s) = sfile s"
  by (simp add: emit_def)

lemma emit_trace [simp]: "trace (emit ev s) = trace s @ [ev]"
  by (simp add: emit_def)

lemma handleError_body_sfile:
  "handleError_body rt a m nx err s = (act, nx', e', s') \<Longrightarrow> sfile s' = sfile s"
  by (auto simp: handleError_body_def Let_def split: jsval.splits option.splits sum.splits if_splits)

lemma handleError_body_trace:
  "handleError_body rt a m nx err s = (act, nx', e', s') \<Longrightarrow>
     \<exists>evs. trace s' = trace s @ evs \<and> filter is_dispatch evs = []"
  by (auto simp: handleError_body_def Let_def split: jsval.splits option.splits sum.splits if_splits)

text \<open>Line 137: what the closure's \<^verbatim>\<open>next\<close> holds after the body.\<close>

lemma handleError_body_next:
  "handleError_body rt a m nx err s = (act, nx', e', s') \<Longrightarrow> nx' = resolve_next nx (sfile s)"
  by (auto simp: handleError_body_def Let_def split: jsval.splits option.splits sum.splits if_splits)

lemma handleError_body_calls:
  "handleError_body rt a m nx err s = (CallNext k args, nx', e', s') \<Longrightarrow>
     resolve_next nx (sfile s) = JFun k"
  by (auto simp: handleError_body_def Let_def split: jsval.splits option.splits sum.splits if_splits)

text \<open>The two ways a call of the closure of \<^verbatim>\<open>handleError\<close> ends.\<close>

lemma invoke_handleError_cases:
  assumes "invoke rt (HandleErrorCb a m nx) args s = (res, cb', e, s')"
  obtains
    (raised) x where
      "handleError_body rt a m nx (first_arg args) s =
         (Raise x, resolve_next nx (sfile s), e, s')"
      "res = Threw x" "cb' = HandleErrorCb a m (resolve_next nx (sfile s))"
  | (called) k args' s1 k' e'' where
      "handleError_body rt a m nx (first_arg args) s = (CallNext k args', JFun k, e, s1)"
      "resolve_next nx (sfile s) = JFun k"
      "invoke rt k args' s1 = (res, k', e'', s')" "cb' = HandleErrorCb a m (JFun k')"
      "size k < Suc (size nx)"
proof -
  obtain act nx' e1 s1 where
    b: "handleError_body rt a m nx (first_arg args) s = (act, nx', e1, s1)"
    by (cases "handleError_body rt a m nx (first_arg args) s") auto
  note n = handleError_body_next [OF b]
  show thesis
  proof (cases act)
    case (Raise x)
    with assms b n show thesis
      by (intro raised [of x]) auto
  next
    case (CallNext k args')
    obtain r2 k2 e2 s2 where i: "invoke rt k args' s1 = (r2, k2, e2, s2)"
      by (cases "invoke rt k args' s1") auto
    have r: "resolve_next nx (sfile s) = JFun k"
      using b CallNext by (auto dest: handleError_body_calls)
    have sz: "size k < Suc (size nx)"
      using b CallNext by (auto dest: handleError_body_size)
    from assms b n CallNext i r sz show thesis
      by (intro called [of k args' s1 k2 e2]) auto
  qed
qed

lemma invoke_sfile:
  "invoke rt cb args s = (res, cb', e, s') \<Longrightarrow> sfile s' = sfile s"
proof (induction cb arbitrary: args s res cb' e s' rule: measure_induct_rule [where f = size])
  case (less cb)
  show ?case
  proof (cases cb)
    case (HandleErrorCb a m nx)
    from less.prems [unfolded HandleErrorCb] show ?thesis
    proof (cases rule: invoke_handleError_cases)
      case (raised x)
      then show ?thesis by (auto dest: handleError_body_sfile)
    next
      case (called k args' s1 k' e'')
      from called(5) have "size k < size cb"
        by (simp add: HandleErrorCb)
      from less.IH [OF this called(3)] called(1) show ?thesis
        by (auto dest: handleError_body_sfile)
    qed
  qed (use less.prems in auto)
qed

lemma invoke_trace:
  "invoke rt cb args s = (res, cb', e, s') \<Longrightarrow>
     \<exists>evs. trace s' = trace s @ evs \<and> filter is_dispatch evs = []"
proof (induction cb arbitrary: args s res cb' e s' rule: measure_induct_rule [where f = size])
  case (less cb)
  show ?case
  proof (cases cb)
    case (HandleErrorCb a m nx)
    from less.prems [unfolded HandleErrorCb] show ?thesis
    proof (cases rule: invoke_handleError_cases)
      case (raised x)
      then show ?thesis by (auto dest: handleError_body_trace)
    next
      case (called k args' s1 k' e'')
      from called(5) have "size k < size cb"
        by (simp add: HandleErrorCb)
      from less.IH [OF this called(3)] obtain evs' where
        "trace s' = trace s1 @ evs'" "filter is_dispatch evs' = []"
        by blast
      moreover from handleError_body_trace [OF called(1)] obtain evs where
        "trace s1 = trace s @ evs" "filter is_dispatch evs = []"
        by blast
      ultimately show ?thesis by simp
    qed
  qed (use less.prems in auto)
qed

lemma invoke_sfile_snd: "sfile (snd (snd (snd (invoke rt cb args s)))) = sfile s"
  by (cases "invoke rt cb args s") (auto dest: invoke_sfile)

lemma invoke_trace_snd:
  "\<exists>evs. trace (snd (snd (snd (invoke rt cb args s)))) = trace s @ evs \<and>
     filter is_dispatch evs = []"
  by (cases "invoke rt cb args s") (auto dest: invoke_trace)

text \<open>
  A callback never changes an error that is already marked: the error object a call of
  \<^verbatim>\<open>next(err)\<close> hands on is the one the body left.
\<close>

lemma invoke_handled_error:
  "ehandled e \<Longrightarrow> invoke rt cb (ErrArg e) s = (res, cb', e', s') \<Longrightarrow> e' = Some e"
  by (cases cb) (auto simp: handleError_body_def Let_def split: jsval.splits prod.splits)

text \<open>A function of the caller's is the same after a call.\<close>

lemma invoke_user: "invoke rt (User n) args s = (res, cb', e, s') \<Longrightarrow> cb' = User n"
  by auto

text \<open>
  A truthy \<^verbatim>\<open>next\<close> stays: line 137 assigns it to itself, whatever \<^verbatim>\<open>file.next\<close>
  is by then.
\<close>

lemma resolve_next_truthy: "truthy nx \<Longrightarrow> resolve_next nx f = nx"
  by (simp add: resolve_next_def)

lemma resolve_next_twice: "resolve_next (resolve_next nx f) f = resolve_next nx f"
  by (cases nx; cases "nxt f") (auto simp: resolve_next_def)

section \<open>The branches of handle\<close>

lemma prepare_stamped: "prepare m f = stamped m 1 f"
  by (simp add: prepare_def stamped_def opts_of_def handled_of_def Let_def)

lemma stamped_stamped: "stamped m j (stamped m (Suc k) f) = stamped m (Suc k + j) f"
  by (simp add: stamped_def opts_of_def handled_of_def replicate_add [symmetric] del: replicate_Suc)

lemma direct_prepare [simp]: "direct a (prepare m f) = direct a f"
  by (simp add: direct_def prepare_def Let_def empty_options_def split: option.splits)

lemma collection_name_prepare [simp]: "collection_name (prepare m f) = collection_name f"
  by (simp add: collection_name_def prepare_def Let_def empty_options_def split: option.splits)

lemma entered_sfile [simp]: "sfile (entered a m s) = prepare m (sfile s)"
  by (simp add: entered_def)

lemma entered_trace [simp]:
  "trace (entered a m s) = trace s @ [Emit (aname a) m, RouterHandle (aname a)]"
  by (simp add: entered_def)

lemma handle_hang:
  "r (prepare m (sfile s)) = Hang \<Longrightarrow> handle rt (Host a r cs) m nx s = (Returned, entered a m s)"
  by (simp add: entered_def Let_def)

lemma handle_error:
  "r (prepare m (sfile s)) = Done (Some err) \<Longrightarrow>
   handle rt (Host a r cs) m nx s =
     (case invoke rt (callback_of a m nx) (ErrArg err)
             (emit (RouterDone (aname a) (Some err)) (entered a m s)) of
        (res, k', e', s') \<Rightarrow> (res, s'))"
  by (simp add: entered_def callback_of_def Let_def)

lemma handle_direct_ok:
  "r (prepare m (sfile s)) = Done None \<Longrightarrow> direct a (sfile s) \<Longrightarrow>
   handle rt (Host a r cs) m nx s =
     (case invoke rt (callback_of a m nx) NoArgs (emit (RouterDone (aname a) None) (entered a m s)) of
        (res, k', e', s') \<Rightarrow> (res, s'))"
  by (simp add: entered_def callback_of_def Let_def)

lemma handle_two_phase_ok:
  "r (prepare m (sfile s)) = Done None \<Longrightarrow> \<not> direct a (sfile s) \<Longrightarrow>
   handle rt (Host a r cs) m nx s =
     (case map_of cs (collection_name (sfile s)) of
        None \<Rightarrow> (Threw (TypeError ''Cannot read property handle of undefined''),
                 emit (RouterDone (aname a) None) (entered a m s))
      | Some c \<Rightarrow>
          handle rt c m (JFun (callback_of a m nx)) (emit (RouterDone (aname a) None) (entered a m s)))"
  by (simp add: entered_def callback_of_def Let_def split: option.splits)

declare handle.simps [simp del]

section \<open>The fallback callback of handle\<close>

lemma fallback_returns:
  "invoke rt (Fallback a m) args s = (Returned, Fallback a m, first_arg args, s)"
  by simp

text \<open>
  C1. The claim: the fallback that \<^verbatim>\<open>handle\<close> builds when it is given no callback calls
  the host's error handling and then raises the original error again. The code: the
  fallback calls \<^verbatim>\<open>app.handleError(method, file, function() { throw err; })\<close>, which
  returns a function, and never calls that function, so \<^verbatim>\<open>throw err\<close> is never
  reached. With a router whose middleware fails with \<open>ex_error\<close> and no callback,
  \<^verbatim>\<open>handle\<close> returns normally: the error is marked, reported to the listeners of
  \<^verbatim>\<open>error\<close> and dropped.
\<close>

theorem handle_without_callback_drops_error:
  "handle ex_quiet ex_failing_host ''onLoad'' JUndefined ex_state =
     (Returned,
      \<lparr>sfile = ex_file\<lparr>options :=
         Some \<lparr>handled = Some [''onLoad''], method_name = Some ''onLoad'', collection = None\<rparr>\<rparr>,
       trace = [Emit ''app'' ''onLoad'', RouterHandle ''app'', RouterDone ''app'' (Some ex_error),
                EmitError ''app'' ex_enriched]\<rparr>)"
  by (simp add: ex_failing_host_def handle.simps ex_app_def ex_file_def ex_error_def Let_def
      handleError_def handleError_body_def resolve_next_def enrich_def second_line_def trim_def
      is_space_def prepare_def direct_def empty_options_def emit_def reason_of_def ex_quiet_def
      ex_state_def ex_enriched_def)

section \<open>handleOnce and a file without options\<close>

lemma handleOnce_no_options:
  "options (sfile s) = None \<Longrightarrow>
   handleOnce rt h m nx s = (Threw (TypeError ''Cannot read property handled of undefined''), s)"
  by (simp add: handleOnce_def)

text \<open>
  C9. The claim: \<^verbatim>\<open>handleOnce\<close> creates \<^verbatim>\<open>file.options.handled\<close> when it is absent and
  goes on, also for a file without \<^verbatim>\<open>options\<close>. The code: line 115 reads
  \<^verbatim>\<open>file.options.handled\<close> without creating \<^verbatim>\<open>file.options\<close> first, as line 66 of
  \<^verbatim>\<open>handle\<close> does, so for \<open>ex_file\<close>, which has no options, the call raises a
  TypeError and leaves the file as it was.
\<close>

theorem handleOnce_without_options_raises:
  "handleOnce ex_quiet ex_host ''onLoad'' (JFun (User 0)) ex_state =
     (Threw (TypeError ''Cannot read property handled of undefined''),
      ex_state)"
  by (simp add: handleOnce_def ex_file_def ex_state_def)

text \<open>
  C3. The claim: for every file, a second \<^verbatim>\<open>handleOnce(v, f, cb)\<close> skips dispatch and
  calls \<^verbatim>\<open>cb(null, f)\<close>. The code: for a file without \<^verbatim>\<open>options\<close> line 115 raises
  in the first call and, the file being unchanged, in the second call again; neither call
  records the verb and \<^verbatim>\<open>cb\<close> is never called (the trace stays empty). For files
  that have options the claim holds: \<open>handleOnce_second_call_skips\<close> below.
\<close>

theorem handleOnce_twice_without_options_raises:
  "handleOnce ex_quiet ex_host ''onLoad'' (JFun (User 0))
     (snd (handleOnce ex_quiet ex_host ''onLoad'' (JFun (User 0)) ex_state)) =
     (Threw (TypeError ''Cannot read property handled of undefined''),
      \<lparr>sfile = ex_file, trace = []\<rparr>) \<and>
   options ex_file = None"
  by (simp add: handleOnce_def ex_file_def ex_state_def)

section \<open>The callback of handleError\<close>

lemma split_nl_nonempty: "split_nl t \<noteq> []"
  by (induction t) (auto split: list.splits)

text \<open>What \<open>trim\<close> drops includes the no-break space, and it drops at both ends only.\<close>

lemma trim_drops_white_space:
  "trim ([CHR 0xA0, CHR 0x20, CHR 0x09] @ ''at f (a b)'' @ [CHR 0x0D, CHR 0xA0, CHR 0x0A]) =
     ''at f (a b)''"
  by (simp add: trim_def is_space_def)

lemma trim_ends:
  assumes "trim s = x # xs"
  shows "\<not> is_space x" and "\<not> is_space (last (x # xs))"
proof -
  let ?ys = "dropWhile is_space s"
  let ?zs = "dropWhile is_space (rev ?ys)"
  from assms have z: "?zs \<noteq> []" and t: "x # xs = rev ?zs"
    by (auto simp: trim_def)
  from z have "\<not> is_space (hd ?zs)"
    by (rule hd_dropWhile)
  with z t show "\<not> is_space (last (x # xs))"
    by (simp add: last_rev)
  have y: "?ys \<noteq> []"
  proof
    assume "?ys = []"
    then have "?zs = []"
      by (simp only: rev.simps dropWhile.simps)
    with z show False
      by simp
  qed
  then have "\<not> is_space (hd ?ys)"
    by (rule hd_dropWhile)
  moreover have "last ?zs = last (rev ?ys)"
    using z by (metis takeWhile_dropWhile_id last_appendR)
  ultimately have "\<not> is_space (last ?zs)"
    using y by (simp add: last_rev)
  moreover from t z have "x = last ?zs"
    by (metis hd_rev list.sel(1))
  ultimately show "\<not> is_space x"
    by simp
qed

lemma second_line_Inr:
  "split_nl st = l0 # l1 # ls \<Longrightarrow> second_line (Some st) = Inr l1"
  by (simp add: second_line_def)

lemma second_line_Inl:
  "(\<exists>x. second_line st = Inl (TypeError x)) \<longleftrightarrow>
     (case st of None \<Rightarrow> True | Some t \<Rightarrow> length (split_nl t) < 2)"
  by (auto simp: second_line_def split: option.splits list.splits)

lemma enrich_Inr:
  "stack e = Some st \<Longrightarrow> split_nl st = l0 # l1 # ls \<Longrightarrow>
   enrich a m f e =
     Inr (e\<lparr>source := Some (trim l1),
            reason := Some (aname a @ ''#handle('' @ [CHR 0x22] @ m @ [CHR 0x22] @ ''): '' @ path f),
            efile := Some FileRef\<rparr>)"
  by (simp add: enrich_def second_line_Inr reason_of_def)

lemma enrich_raises_iff:
  "(\<exists>x. enrich a m f e = Inl (TypeError x)) \<longleftrightarrow>
     (case stack e of None \<Rightarrow> True | Some st \<Rightarrow> length (split_nl st) < 2)"
  using second_line_Inl [of "stack e"]
  by (auto simp: enrich_def split: sum.splits)

lemma enrich_not_guard: "enrich a m f e \<noteq> Inl (TypeError ''expected a callback function'')"
  by (auto simp: enrich_def second_line_def split: option.splits list.splits sum.splits)

lemma body_first_sighting:
  assumes "\<not> ehandled e" "resolve_next nx (sfile s) = JFun k"
    "stack e = Some st" "split_nl st = l0 # l1 # ls"
    "e2 = e\<lparr>ehandled := True, source := Some (trim l1),
             reason := Some (aname a @ ''#handle('' @ [CHR 0x22] @ m @ [CHR 0x22] @ ''): '' @
                             path (sfile s)),
             efile := Some FileRef\<rparr>"
    "s1 = (if error_listeners a then emit (EmitError (aname a) e2) s else s)"
  shows "handleError_body rt a m nx (Some e) s =
     (if is_reference e then
        (CallNext k (ErrArg (case rt (content (sfile s)) (data (sfile s)) of
                               Some e' \<Rightarrow> e' | None \<Rightarrow> e2)),
         JFun k, Some e2, emit (Rethrow (content (sfile s)) (data (sfile s))) s1)
      else (CallNext k (ErrArg e2), JFun k, Some e2, s1))"
  using assms enrich_Inr [of "e\<lparr>ehandled := True\<rparr>" st l0 l1 ls a m "sfile s"]
  by (auto simp: handleError_body_def Let_def split: option.splits)

lemma body_first_sighting_raises:
  assumes "\<not> ehandled e" "resolve_next nx (sfile s) = JFun k"
    "case stack e of None \<Rightarrow> True | Some st \<Rightarrow> length (split_nl st) < 2"
  shows "\<exists>x. handleError_body rt a m nx (Some e) s =
           (Raise (TypeError x), JFun k, Some (e\<lparr>ehandled := True\<rparr>), s)"
proof -
  from assms(3) have "\<exists>x. enrich a m (sfile s) (e\<lparr>ehandled := True\<rparr>) = Inl (TypeError x)"
    by (simp add: enrich_raises_iff)
  with assms(1,2) show ?thesis
    by (auto simp: handleError_body_def Let_def)
qed

lemma body_second_sighting:
  assumes "ehandled e" "resolve_next nx (sfile s) = JFun k"
  shows "handleError_body rt a m nx (Some e) s = (CallNext k NoArgs, JFun k, Some e, s)"
  using assms by (simp add: handleError_body_def)

lemma body_guard:
  "fst (handleError_body rt a m nx err s) = Raise (TypeError ''expected a callback function'')
     \<longleftrightarrow> \<not> is_function (resolve_next nx (sfile s))"
  using enrich_not_guard [of a m "sfile s"]
  by (cases "resolve_next nx (sfile s)")
    (auto simp: handleError_body_def Let_def split: option.splits sum.splits)

lemma resolve_next_explicit:
  "\<not> is_function (resolve_next nx f) \<longleftrightarrow>
     (truthy nx \<and> \<not> is_function nx) \<or> (\<not> truthy nx \<and> \<not> is_function (of_uval (nxt f)))"
  by (simp add: resolve_next_def)

lemma resolve_uval_user:
  "resolve_next (of_uval u) f = JFun k \<Longrightarrow> \<exists>n. k = User n"
  by (cases u; cases "nxt f") (auto simp: resolve_next_def split: if_splits)

lemma resolve_uval_uval: "\<exists>u'. resolve_next (of_uval u) f = of_uval u'"
  by (cases "truthy (of_uval u)") (auto simp: resolve_next_def)

lemma body_first_marks:
  assumes "\<not> ehandled e" "resolve_next nx (sfile s) = JFun k"
    "handleError_body rt a m nx (Some e) s = (act, nx', e1, s1)"
  shows "\<exists>e2. e1 = Some e2 \<and> ehandled e2"
  using assms
  by (auto simp: handleError_body_def Let_def enrich_def split: sum.splits option.splits if_splits)

text \<open>
  C4, the claim as it is written: every error passed twice through the callback is marked
  and enriched by the first pass. It fails for an error whose stack has one line: line 149
  marks it, line 150 raises, and \<^verbatim>\<open>source\<close> and \<^verbatim>\<open>reason\<close> are never set.
\<close>

theorem one_line_stack_is_not_enriched:
  "invoke ex_quiet (handleError ex_app ''onLoad'' (JFun (User 0))) (ErrArg ex_short_error) ex_state =
     (Threw (TypeError ''Cannot read property trim of undefined''),
      handleError ex_app ''onLoad'' (JFun (User 0)),
      Some (ex_short_error\<lparr>ehandled := True\<rparr>), ex_state) \<and>
   source (ex_short_error\<lparr>ehandled := True\<rparr>) = None \<and>
   reason (ex_short_error\<lparr>ehandled := True\<rparr>) = None"
  by (simp add: handleError_def handleError_body_def resolve_next_def enrich_def second_line_def
      Let_def ex_short_error_def ex_error_def)

text \<open>
  C4, amended. An error that is not yet marked meets a callback whose \<^verbatim>\<open>next\<close>
  resolves to a function \<open>k\<close>. The first pass leaves it marked. When its stack has at
  least two lines the pass also leaves \<^verbatim>\<open>source\<close> the trimmed second line,
  \<^verbatim>\<open>reason\<close> the host's name, \<^verbatim>\<open>#handle("\<close>, the verb, \<^verbatim>\<open>"): \<close> and the file's
  path, and the file attached; when the stack is absent or has one line the pass marks
  the error, raises and sets nothing else. Passing the error object, as the first pass left
  it, through the same callback again, in whatever state, is exactly one call
  \<^verbatim>\<open>next()\<close> with no argument of the function the callback holds (\<open>k\<close> as the first
  pass left it, \<open>k\<close> itself when it is a function of the caller's), and the object is
  unchanged by it, \<^verbatim>\<open>reason\<close> and \<^verbatim>\<open>source\<close> included.
\<close>

theorem handled_error_passes_once:
  assumes "\<not> ehandled e"
    and "resolve_next nx (sfile s) = JFun k"
    and "invoke rt (handleError a m nx) (ErrArg e) s = (r1, cb1, e1, s1)"
  shows "\<exists>e2 k1. e1 = Some e2 \<and> ehandled e2 \<and> cb1 = handleError a m (JFun k1) \<and>
           (\<forall>n. k = User n \<longrightarrow> k1 = k) \<and>
           (\<forall>st l0 l1 ls. stack e = Some st \<and> split_nl st = l0 # l1 # ls \<longrightarrow>
              e2 = e\<lparr>ehandled := True, source := Some (trim l1),
                     reason := Some (aname a @ ''#handle('' @ [CHR 0x22] @ m @ [CHR 0x22] @ ''): '' @
                                     path (sfile s)),
                     efile := Some FileRef\<rparr>) \<and>
           ((case stack e of None \<Rightarrow> True | Some st \<Rightarrow> length (split_nl st) < 2) \<longrightarrow>
              e2 = e\<lparr>ehandled := True\<rparr> \<and> (\<exists>x. r1 = Threw (TypeError x)) \<and> k1 = k \<and> s1 = s) \<and>
           (\<forall>s2. invoke rt cb1 (ErrArg e2) s2 =
              (case invoke rt k1 NoArgs s2 of
                 (res, k2, x, s') \<Rightarrow> (res, handleError a m (JFun k2), Some e2, s')))"
proof -
  from assms(3) have i: "invoke rt (HandleErrorCb a m nx) (ErrArg e) s = (r1, cb1, e1, s1)"
    by (simp add: handleError_def)
  have second: "\<And>e2 k1 s2. ehandled e2 \<Longrightarrow>
      invoke rt (handleError a m (JFun k1)) (ErrArg e2) s2 =
        (case invoke rt k1 NoArgs s2 of
           (res, k2, x, s') \<Rightarrow> (res, handleError a m (JFun k2), Some e2, s'))"
    by (simp add: handleError_def handleError_body_def resolve_next_def)
  have enr: "\<And>e2 a1 nx1 s'. handleError_body rt a m nx (Some e) s = (a1, nx1, Some e2, s') \<Longrightarrow>
      \<forall>st l0 l1 ls. stack e = Some st \<and> split_nl st = l0 # l1 # ls \<longrightarrow>
        e2 = e\<lparr>ehandled := True, source := Some (trim l1),
               reason := Some (aname a @ ''#handle('' @ [CHR 0x22] @ m @ [CHR 0x22] @ ''): '' @
                               path (sfile s)),
               efile := Some FileRef\<rparr>"
  proof (intro allI impI)
    fix e2 a1 nx1 s' st l0 l1 ls
    assume b: "handleError_body rt a m nx (Some e) s = (a1, nx1, Some e2, s')"
      and "stack e = Some st \<and> split_nl st = l0 # l1 # ls"
    then have st: "stack e = Some st" "split_nl st = l0 # l1 # ls" by simp_all
    from b body_first_sighting [OF assms(1,2) st refl refl, of rt a m]
    show "e2 = e\<lparr>ehandled := True, source := Some (trim l1),
               reason := Some (aname a @ ''#handle('' @ [CHR 0x22] @ m @ [CHR 0x22] @ ''): '' @
                               path (sfile s)),
               efile := Some FileRef\<rparr>"
      by (auto split: if_splits)
  qed
  from i show ?thesis
  proof (cases rule: invoke_handleError_cases)
    case (raised x)
    from body_first_marks [OF assms(1,2) raised(1) [simplified]] obtain e2 where
      e2: "e1 = Some e2" "ehandled e2"
      by blast
    have short: "(case stack e of None \<Rightarrow> True | Some st \<Rightarrow> length (split_nl st) < 2) \<longrightarrow>
        e2 = e\<lparr>ehandled := True\<rparr> \<and> (\<exists>x. r1 = Threw (TypeError x)) \<and> s1 = s"
    proof
      assume "case stack e of None \<Rightarrow> True | Some st \<Rightarrow> length (split_nl st) < 2"
      from body_first_sighting_raises [OF assms(1,2) this, of rt a m] raised e2
      show "e2 = e\<lparr>ehandled := True\<rparr> \<and> (\<exists>x. r1 = Threw (TypeError x)) \<and> s1 = s"
        by auto
    qed
    from raised e2 assms(2) enr [of _ _ e2 s1] short second [OF e2(2), of k] show ?thesis
      by (intro exI [of _ e2] exI [of _ k]) (auto simp: handleError_def)
  next
    case (called k0 args' s0 k' e'')
    from body_first_marks [OF assms(1,2) called(1) [simplified]] obtain e2 where
      e2: "e1 = Some e2" "ehandled e2"
      by blast
    from called(2) assms(2) have k0: "k0 = k" by simp
    have user: "\<forall>n. k = User n \<longrightarrow> k' = k"
      using called(3) k0 by (auto dest: invoke_user)
    have short: "(case stack e of None \<Rightarrow> True | Some st \<Rightarrow> length (split_nl st) < 2) \<longrightarrow>
        e2 = e\<lparr>ehandled := True\<rparr> \<and> (\<exists>x. r1 = Threw (TypeError x)) \<and> k' = k \<and> s1 = s"
    proof
      assume "case stack e of None \<Rightarrow> True | Some st \<Rightarrow> length (split_nl st) < 2"
      from body_first_sighting_raises [OF assms(1,2) this, of rt a m] called(1)
      show "e2 = e\<lparr>ehandled := True\<rparr> \<and> (\<exists>x. r1 = Threw (TypeError x)) \<and> k' = k \<and> s1 = s"
        by auto
    qed
    from called e2 enr [of _ _ e2 s0] short user second [OF e2(2), of k'] show ?thesis
      by (intro exI [of _ e2] exI [of _ k']) (auto simp: handleError_def)
  qed
qed

theorem handled_error_passes_once_witness:
  "invoke ex_quiet (handleError ex_app ''onLoad'' (JFun (User 0))) (ErrArg ex_error) ex_state =
     (Returned, handleError ex_app ''onLoad'' (JFun (User 0)), Some ex_enriched,
      \<lparr>sfile = ex_file,
       trace = [EmitError ''app'' ex_enriched, Called 0 (ErrArg ex_enriched)]\<rparr>) \<and>
   invoke ex_quiet (handleError ex_app ''onLoad'' (JFun (User 0))) (ErrArg ex_enriched)
     \<lparr>sfile = ex_file,
      trace = [EmitError ''app'' ex_enriched, Called 0 (ErrArg ex_enriched)]\<rparr> =
     (Returned, handleError ex_app ''onLoad'' (JFun (User 0)), Some ex_enriched,
      \<lparr>sfile = ex_file,
       trace = [EmitError ''app'' ex_enriched, Called 0 (ErrArg ex_enriched),
                Called 0 NoArgs]\<rparr>)"
proof -
  let ?s1 = "\<lparr>sfile = ex_file,
       trace = [EmitError ''app'' ex_enriched, Called 0 (ErrArg ex_enriched)]\<rparr>"
  have h1: "\<not> ehandled ex_error"
    by (simp add: ex_error_def)
  have h2: "resolve_next (JFun (User 0)) (sfile ex_state) = JFun (User 0)"
    by (simp add: resolve_next_def)
  have h3: "invoke ex_quiet (handleError ex_app ''onLoad'' (JFun (User 0))) (ErrArg ex_error) ex_state =
      (Returned, handleError ex_app ''onLoad'' (JFun (User 0)), Some ex_enriched, ?s1)"
    by (simp add: handleError_def handleError_body_def resolve_next_def enrich_def second_line_def
        Let_def ex_error_def ex_app_def ex_state_def ex_file_def trim_def is_space_def
        ex_enriched_def reason_of_def emit_def)
  from handled_error_passes_once [OF h1 h2 h3] obtain e2 k1 where
    "Some ex_enriched = Some e2" "handleError ex_app ''onLoad'' (JFun (User 0)) =
      handleError ex_app ''onLoad'' (JFun k1)"
    "\<forall>s2. invoke ex_quiet (handleError ex_app ''onLoad'' (JFun (User 0))) (ErrArg e2) s2 =
       (case invoke ex_quiet k1 NoArgs s2 of
          (res, k2, x, s') \<Rightarrow> (res, handleError ex_app ''onLoad'' (JFun k2), Some e2, s'))"
    by blast
  then have "invoke ex_quiet (handleError ex_app ''onLoad'' (JFun (User 0))) (ErrArg ex_enriched) ?s1 =
      (case invoke ex_quiet (User 0) NoArgs ?s1 of
         (res, k2, x, s') \<Rightarrow> (res, handleError ex_app ''onLoad'' (JFun k2), Some ex_enriched, s'))"
    by (simp add: handleError_def)
  with h3 show ?thesis
    by (simp add: emit_def)
qed

text \<open>
  C5, the claim as it is written: for every ReferenceError seen for the first time the
  callback calls \<^verbatim>\<open>rethrow\<close> and forwards an error to \<^verbatim>\<open>next\<close>. It fails for a
  ReferenceError whose stack has one line: line 150 raises before line 164 is reached,
  \<^verbatim>\<open>rethrow\<close> is not called (\<open>ex_rethrow\<close> would throw) and nothing reaches
  \<^verbatim>\<open>next\<close>: the trace stays empty.
\<close>

theorem one_line_reference_error_is_not_rethrown:
  "invoke ex_rethrow (handleError ex_app ''preRender'' (JFun (User 0)))
     (ErrArg ex_short_reference_error) ex_state =
     (Threw (TypeError ''Cannot read property trim of undefined''),
      handleError ex_app ''preRender'' (JFun (User 0)),
      Some (ex_short_reference_error\<lparr>ehandled := True\<rparr>),
      \<lparr>sfile = ex_file, trace = []\<rparr>) \<and>
   is_reference ex_short_reference_error \<and> \<not> ehandled ex_short_reference_error"
  by (simp add: handleError_def handleError_body_def resolve_next_def enrich_def second_line_def
      Let_def ex_short_reference_error_def ex_reference_error_def ex_state_def)

text \<open>
  C5, amended. A ReferenceError seen for the first time whose stack has at least two
  lines, on a callback whose \<^verbatim>\<open>next\<close> resolves to a function \<open>k\<close>: after the
  enrichment (and the \<^verbatim>\<open>error\<close> event when the host has listeners for it) the callback
  calls \<^verbatim>\<open>rethrow(file.content, file.data)\<close>. When that throws \<open>e'\<close>, \<open>k\<close> is
  called with \<open>e'\<close> and not with the original; when it returns, \<open>k\<close> is called with
  the original, enriched error. That call of \<open>k\<close> ends the callback.
\<close>

theorem reference_error_is_rethrown:
  assumes "is_reference e" and "\<not> ehandled e"
    and "resolve_next nx (sfile s) = JFun k"
    and "stack e = Some st" and "split_nl st = l0 # l1 # ls"
    and "e2 = e\<lparr>ehandled := True, source := Some (trim l1),
                  reason := Some (aname a @ ''#handle('' @ [CHR 0x22] @ m @ [CHR 0x22] @ ''): '' @
                                  path (sfile s)),
                  efile := Some FileRef\<rparr>"
    and "s2 = emit (Rethrow (content (sfile s)) (data (sfile s)))
                (if error_listeners a then emit (EmitError (aname a) e2) s else s)"
  shows "invoke rt (handleError a m nx) (ErrArg e) s =
           (case invoke rt k
                   (ErrArg (case rt (content (sfile s)) (data (sfile s)) of
                              Some e' \<Rightarrow> e' | None \<Rightarrow> e2)) s2 of
              (res, k', x, s') \<Rightarrow> (res, handleError a m (JFun k'), Some e2, s'))"
  using assms(1,7) body_first_sighting [OF assms(2-6) refl, of rt]
  by (simp add: handleError_def)

theorem reference_error_is_rethrown_witness:
  "invoke ex_rethrow (handleError ex_app ''preRender'' (JFun (User 0)))
     (ErrArg ex_reference_error) ex_state =
     (Returned, handleError ex_app ''preRender'' (JFun (User 0)), Some ex_reference_enriched,
      \<lparr>sfile = ex_file,
       trace = [EmitError ''app'' ex_reference_enriched, Rethrow ''abc'' [],
                Called 0 (ErrArg ex_mapped)]\<rparr>) \<and>
   invoke ex_quiet (handleError ex_app ''preRender'' (JFun (User 0)))
     (ErrArg ex_reference_error) ex_state =
     (Returned, handleError ex_app ''preRender'' (JFun (User 0)), Some ex_reference_enriched,
      \<lparr>sfile = ex_file,
       trace = [EmitError ''app'' ex_reference_enriched, Rethrow ''abc'' [],
                Called 0 (ErrArg ex_reference_enriched)]\<rparr>)"
proof -
  let ?st = "''ReferenceError: title is not defined'' @ [CHR 0x0A] @ ''    at eval (a.md:1:1)''"
  have h1: "is_reference ex_reference_error" and h2: "\<not> ehandled ex_reference_error"
    and h4: "stack ex_reference_error = Some ?st"
    by (simp_all add: ex_reference_error_def)
  have h3: "resolve_next (JFun (User 0)) (sfile ex_state) = JFun (User 0)"
    by (simp add: resolve_next_def)
  have h5: "split_nl ?st = ''ReferenceError: title is not defined'' # ''    at eval (a.md:1:1)'' # []"
    by simp
  have thrown: "invoke ex_rethrow (handleError ex_app ''preRender'' (JFun (User 0)))
     (ErrArg ex_reference_error) ex_state =
     (Returned, handleError ex_app ''preRender'' (JFun (User 0)), Some ex_reference_enriched,
      \<lparr>sfile = ex_file,
       trace = [EmitError ''app'' ex_reference_enriched, Rethrow ''abc'' [],
                Called 0 (ErrArg ex_mapped)]\<rparr>)"
    using reference_error_is_rethrown
      [where a = ex_app and rt = ex_rethrow and m = "''preRender''", OF h1 h2 h3 h4 h5 refl refl]
    by (simp add: ex_rethrow_def ex_app_def ex_state_def ex_file_def trim_def is_space_def emit_def
        ex_reference_enriched_def)
  have returned: "invoke ex_quiet (handleError ex_app ''preRender'' (JFun (User 0)))
     (ErrArg ex_reference_error) ex_state =
     (Returned, handleError ex_app ''preRender'' (JFun (User 0)), Some ex_reference_enriched,
      \<lparr>sfile = ex_file,
       trace = [EmitError ''app'' ex_reference_enriched, Rethrow ''abc'' [],
                Called 0 (ErrArg ex_reference_enriched)]\<rparr>)"
    using reference_error_is_rethrown
      [where a = ex_app and rt = ex_quiet and m = "''preRender''", OF h1 h2 h3 h4 h5 refl refl]
    by (simp add: ex_quiet_def ex_app_def ex_state_def ex_file_def trim_def is_space_def emit_def
        ex_reference_enriched_def)
  from thrown returned show ?thesis by simp
qed

lemma invoke_guard_uval:
  "fst (invoke rt (handleError a m (of_uval u)) args s) =
     Threw (TypeError ''expected a callback function'')
     \<longleftrightarrow> \<not> is_function (resolve_next (of_uval u) (sfile s))"
proof -
  obtain res cb' e s' where
    i: "invoke rt (HandleErrorCb a m (of_uval u)) args s = (res, cb', e, s')"
    by (cases "invoke rt (HandleErrorCb a m (of_uval u)) args s") auto
  from i show ?thesis
  proof (cases rule: invoke_handleError_cases)
    case (raised x)
    with i body_guard [of rt a m "of_uval u" "first_arg args" s] show ?thesis
      by (simp add: handleError_def)
  next
    case (called k args' s1 k' e'')
    from called(2) obtain n where "k = User n"
      using resolve_uval_user by blast
    with called(3) have "res = Returned" by auto
    with i called(2) show ?thesis
      by (simp add: handleError_def)
  qed
qed

lemma invoke_closure_uval:
  "fst (snd (invoke rt (handleError a m (of_uval u)) args s)) =
     handleError a m (resolve_next (of_uval u) (sfile s))"
proof -
  obtain res cb' e s' where
    i: "invoke rt (HandleErrorCb a m (of_uval u)) args s = (res, cb', e, s')"
    by (cases "invoke rt (HandleErrorCb a m (of_uval u)) args s") auto
  from i show ?thesis
  proof (cases rule: invoke_handleError_cases)
    case (raised x)
    with i show ?thesis
      by (simp add: handleError_def)
  next
    case (called k args' s1 k' e'')
    from called(2) obtain n where "k = User n"
      using resolve_uval_user by blast
    with called(3) have "k' = k" by auto
    with i called(2,4) show ?thesis
      by (simp add: handleError_def)
  qed
qed

text \<open>
  C7, the claim as it is written: the callback raises its TypeError exactly when neither
  the bound \<^verbatim>\<open>next\<close> nor \<^verbatim>\<open>file.next\<close> is callable. It fails for a bound
  \<^verbatim>\<open>next\<close> that is a non-empty string while \<^verbatim>\<open>file.next\<close> is a function: line 137,
  \<^verbatim>\<open>next = next || file.next\<close>, keeps the string, and line 140 raises.
\<close>

theorem guard_raises_with_callable_file_next:
  "fst (invoke ex_quiet (handleError ex_app ''onLoad'' (JString ''done'')) NoArgs
         \<lparr>sfile = ex_file\<lparr>nxt := UFun 0\<rparr>, trace = []\<rparr>) =
     Threw (TypeError ''expected a callback function'') \<and>
   is_function (of_uval (nxt (ex_file\<lparr>nxt := UFun 0\<rparr>)))"
  by (simp add: handleError_def handleError_body_def resolve_next_def ex_file_def)

text \<open>
  C7, amended. The callback keeps \<^verbatim>\<open>next\<close> as a variable of its own. Each call first
  replaces it by \<^verbatim>\<open>next || file.next\<close> (line 137) and then raises the TypeError of
  line 140 exactly when the result is not a function: when the callback's \<^verbatim>\<open>next\<close> is
  truthy and not callable, or it is falsy and \<^verbatim>\<open>file.next\<close> is not callable at that
  call. The callback's \<^verbatim>\<open>next\<close> is the bound argument at the first call and the value
  the call before left afterwards, so a truthy resolution stays, and \<^verbatim>\<open>file.next\<close> is
  read again only while the callback's \<^verbatim>\<open>next\<close> is still falsy.

  The first two statements are those of the body, for any value \<open>nx\<close> the callback's
  \<^verbatim>\<open>next\<close> holds. The other three are those of whole calls, for a bound \<^verbatim>\<open>next\<close>
  that the caller supplied (\<^verbatim>\<open>undefined\<close>, a string or a function of the caller's): no
  other step of the call raises that error, the callback is left holding the resolved
  value, and a later call, in any state, decides by that value.
\<close>

theorem guard_raises_iff:
  "(fst (handleError_body rt a m nx err s) = Raise (TypeError ''expected a callback function'')
      \<longleftrightarrow> (truthy nx \<and> \<not> is_function nx) \<or>
           (\<not> truthy nx \<and> \<not> is_function (of_uval (nxt (sfile s))))) \<and>
   fst (snd (handleError_body rt a m nx err s)) =
      (if truthy nx then nx else of_uval (nxt (sfile s))) \<and>
   (fst (invoke rt (handleError a m (of_uval u)) args s) =
      Threw (TypeError ''expected a callback function'')
      \<longleftrightarrow> (truthy (of_uval u) \<and> \<not> is_function (of_uval u)) \<or>
           (\<not> truthy (of_uval u) \<and> \<not> is_function (of_uval (nxt (sfile s))))) \<and>
   fst (snd (invoke rt (handleError a m (of_uval u)) args s)) =
      handleError a m (if truthy (of_uval u) then of_uval u else of_uval (nxt (sfile s))) \<and>
   (fst (invoke rt (fst (snd (invoke rt (handleError a m (of_uval u)) args s))) args2 s2) =
      Threw (TypeError ''expected a callback function'')
      \<longleftrightarrow> (let n1 = (if truthy (of_uval u) then of_uval u else of_uval (nxt (sfile s)))
           in (truthy n1 \<and> \<not> is_function n1) \<or>
              (\<not> truthy n1 \<and> \<not> is_function (of_uval (nxt (sfile s2))))))"
proof -
  have b: "fst (snd (handleError_body rt a m nx err s)) =
      (if truthy nx then nx else of_uval (nxt (sfile s)))"
    using handleError_body_next [of rt a m nx err s]
    by (cases "handleError_body rt a m nx err s") (simp add: resolve_next_def)
  obtain u' where u': "resolve_next (of_uval u) (sfile s) = of_uval u'"
    using resolve_uval_uval by blast
  have again: "fst (invoke rt (fst (snd (invoke rt (handleError a m (of_uval u)) args s))) args2 s2) =
      Threw (TypeError ''expected a callback function'')
      \<longleftrightarrow> \<not> is_function (resolve_next (resolve_next (of_uval u) (sfile s)) (sfile s2))"
    by (simp add: invoke_closure_uval u' invoke_guard_uval)
  show ?thesis
    using b again
    by (simp only: body_guard invoke_guard_uval invoke_closure_uval resolve_next_explicit Let_def)
      (simp add: resolve_next_def)
qed

theorem guard_raises_iff_witness:
  "fst (invoke ex_quiet
         (fst (snd (invoke ex_quiet (handleError ex_app ''onLoad'' (of_uval UUndefined)) NullFile
            \<lparr>sfile = ex_file\<lparr>nxt := UFun 0\<rparr>, trace = []\<rparr>)))
         NullFile \<lparr>sfile = ex_file\<lparr>nxt := UUndefined\<rparr>, trace = []\<rparr>) \<noteq>
     Threw (TypeError ''expected a callback function'') \<and>
   fst (invoke ex_quiet
         (fst (snd (invoke ex_quiet (handleError ex_app ''onLoad'' (of_uval UUndefined)) NullFile
            \<lparr>sfile = ex_file\<lparr>nxt := UString ''done''\<rparr>, trace = []\<rparr>)))
         NullFile \<lparr>sfile = ex_file\<lparr>nxt := UFun 0\<rparr>, trace = []\<rparr>) =
     Threw (TypeError ''expected a callback function'')"
  using guard_raises_iff [of ex_quiet ex_app "''onLoad''" JUndefined None
      "\<lparr>sfile = ex_file\<lparr>nxt := UFun 0\<rparr>, trace = []\<rparr>" UUndefined NullFile NullFile
      "\<lparr>sfile = ex_file\<lparr>nxt := UUndefined\<rparr>, trace = []\<rparr>"]
    guard_raises_iff [of ex_quiet ex_app "''onLoad''" JUndefined None
      "\<lparr>sfile = ex_file\<lparr>nxt := UString ''done''\<rparr>, trace = []\<rparr>" UUndefined NullFile NullFile
      "\<lparr>sfile = ex_file\<lparr>nxt := UFun 0\<rparr>, trace = []\<rparr>"]
  by (elim conjE) (simp add: ex_file_def)

text \<open>
  C10. An error seen for the first time whose stack is absent or has fewer than two lines,
  on a callback whose \<^verbatim>\<open>next\<close> resolves to a function: line 150 raises a TypeError.
  By then line 149 has marked the error; \<^verbatim>\<open>next\<close> is not called and no event is
  emitted, the state is as it was. Lines 150-152 raise for exactly these stacks.
\<close>

theorem enrichment_needs_second_line:
  assumes "\<not> ehandled e"
    and "resolve_next nx (sfile s) = JFun k"
    and "case stack e of None \<Rightarrow> True | Some st \<Rightarrow> length (split_nl st) < 2"
  shows "(\<exists>x. invoke rt (handleError a m nx) (ErrArg e) s =
            (Threw (TypeError x), handleError a m (JFun k), Some (e\<lparr>ehandled := True\<rparr>), s)) \<and>
         (\<forall>e'. (\<exists>x. enrich a m (sfile s) e' = Inl (TypeError x)) \<longleftrightarrow>
            (case stack e' of None \<Rightarrow> True | Some st \<Rightarrow> length (split_nl st) < 2))"
proof -
  from body_first_sighting_raises [OF assms, of rt a m]
  have "\<exists>x. invoke rt (handleError a m nx) (ErrArg e) s =
      (Threw (TypeError x), handleError a m (JFun k), Some (e\<lparr>ehandled := True\<rparr>), s)"
    by (auto simp: handleError_def)
  moreover have "\<forall>e'. (\<exists>x. enrich a m (sfile s) e' = Inl (TypeError x)) \<longleftrightarrow>
      (case stack e' of None \<Rightarrow> True | Some st \<Rightarrow> length (split_nl st) < 2)"
    by (simp add: enrich_raises_iff)
  ultimately show ?thesis by simp
qed

theorem enrichment_needs_second_line_witness:
  "\<exists>x. invoke ex_quiet (handleError ex_app ''onLoad'' (JFun (User 0)))
     (ErrArg (ex_error\<lparr>stack := Some ''Error: boom''\<rparr>)) ex_state =
   (Threw (TypeError x), handleError ex_app ''onLoad'' (JFun (User 0)),
    Some (ex_error\<lparr>stack := Some ''Error: boom'', ehandled := True\<rparr>), ex_state)"
proof -
  have h1: "\<not> ehandled (ex_error\<lparr>stack := Some ''Error: boom''\<rparr>)"
    by (simp add: ex_error_def)
  have h2: "resolve_next (JFun (User 0)) (sfile ex_state) = JFun (User 0)"
    by (simp add: resolve_next_def)
  have h3: "case stack (ex_error\<lparr>stack := Some ''Error: boom''\<rparr>) of
      None \<Rightarrow> True | Some st \<Rightarrow> length (split_nl st) < 2"
    by simp
  show ?thesis
    using enrichment_needs_second_line
      [where rt = ex_quiet and a = ex_app and m = "''onLoad''", OF h1 h2 h3] by blast
qed

section \<open>What handle does to the file and to the trace\<close>

lemma handle_sfile:
  "\<exists>k. sfile (snd (handle rt h m nx s)) = stamped m (Suc k) (sfile s)"
proof (induction h arbitrary: nx s rule: measure_induct_rule [where f = size])
  case (less h)
  obtain a r cs where h: "h = Host a r cs" by (cases h)
  let ?s3 = "\<lambda>e. emit (RouterDone (aname a) e) (entered a m s)"
  have one: "stamped m (Suc 0) (sfile s) = prepare m (sfile s)"
    by (simp add: prepare_stamped)
  show ?case
  proof (cases "r (prepare m (sfile s))")
    case Hang
    then show ?thesis
      unfolding h by (auto simp: handle_hang one intro: exI [of _ 0])
  next
    case (Done e)
    show ?thesis
    proof (cases e)
      case (Some err)
      with Done show ?thesis
        unfolding h
        using invoke_sfile_snd [of rt "callback_of a m nx" "ErrArg err" "?s3 (Some err)"]
        by (auto simp: handle_error one split: prod.splits intro: exI [of _ 0])
    next
      case None
      show ?thesis
      proof (cases "direct a (sfile s)")
        case True
        with Done None show ?thesis
          unfolding h using invoke_sfile_snd [of rt "callback_of a m nx" NoArgs "?s3 None"]
          by (auto simp: handle_direct_ok one split: prod.splits intro: exI [of _ 0])
      next
        case False
        show ?thesis
        proof (cases "map_of cs (collection_name (sfile s))")
          case no: None
          with Done None False show ?thesis
            unfolding h by (auto simp: handle_two_phase_ok one intro: exI [of _ 0])
        next
          case (Some c)
          then have "size c < size h"
            unfolding h using map_of_host_size [of cs _ c] by simp
          from less [OF this, of "JFun (callback_of a m nx)" "?s3 None"] obtain k where
            "sfile (snd (handle rt c m (JFun (callback_of a m nx)) (?s3 None))) =
               stamped m (Suc k) (prepare m (sfile s))"
            by auto
          with Done None False Some show ?thesis
            unfolding h
            by (auto simp: handle_two_phase_ok prepare_stamped stamped_stamped
                simp del: replicate_Suc intro: exI [of _ "Suc k"])
        qed
      qed
    qed
  qed
qed

lemma handle_direct_sfile:
  "direct a (sfile s) \<Longrightarrow> sfile (snd (handle rt (Host a r cs) m nx s)) = prepare m (sfile s)"
proof (cases "r (prepare m (sfile s))")
  case Hang
  then show ?thesis by (simp add: handle_hang)
next
  case (Done e)
  assume d: "direct a (sfile s)"
  show ?thesis
  proof (cases e)
    case None
    with Done d show ?thesis
      using invoke_sfile_snd [of rt "callback_of a m nx" NoArgs
          "emit (RouterDone (aname a) None) (entered a m s)"]
      by (auto simp: handle_direct_ok split: prod.splits)
  next
    case (Some err)
    with Done show ?thesis
      using invoke_sfile_snd [of rt "callback_of a m nx" "ErrArg err"
          "emit (RouterDone (aname a) (Some err)) (entered a m s)"]
      by (auto simp: handle_error split: prod.splits)
  qed
qed

lemma stamped_options:
  "options (stamped m k f) = Some ((opts_of f)\<lparr>method_name := Some m, handled := Some (handled_of f @ replicate k m)\<rparr>)"
  by (simp add: stamped_def)

lemma handled_of_stamped [simp]: "handled_of (stamped m k f) = handled_of f @ replicate k m"
  by (simp add: handled_of_def opts_of_def stamped_def)

lemma handle_trace_begins:
  "\<exists>evs. trace (snd (handle rt (Host a r cs) m nx s)) =
     trace s @ [Emit (aname a) m, RouterHandle (aname a)] @ evs"
proof (induction cs arbitrary: a r nx s rule: measure_induct_rule [where f = "size_list (size_prod (\<lambda>x. 0) size)"])
  case (less cs)
  let ?s3 = "\<lambda>e. emit (RouterDone (aname a) e) (entered a m s)"
  show ?case
  proof (cases "r (prepare m (sfile s))")
    case Hang
    then show ?thesis
      by (simp add: handle_hang)
  next
    case (Done e)
    show ?thesis
    proof (cases e)
      case (Some err)
      with Done show ?thesis
        using invoke_trace_snd [of rt "callback_of a m nx" "ErrArg err" "?s3 (Some err)"]
        by (auto simp: handle_error split: prod.splits)
    next
      case None
      show ?thesis
      proof (cases "direct a (sfile s)")
        case True
        with Done None show ?thesis
          using invoke_trace_snd [of rt "callback_of a m nx" NoArgs "?s3 None"]
          by (auto simp: handle_direct_ok split: prod.splits)
      next
        case False
        show ?thesis
        proof (cases "map_of cs (collection_name (sfile s))")
          case no: None
          with Done None False show ?thesis
            by (simp add: handle_two_phase_ok)
        next
          case (Some c)
          obtain a' r' cs' where c: "c = Host a' r' cs'" by (cases c)
          have "size_list (size_prod (\<lambda>x. 0) size) cs' < size_list (size_prod (\<lambda>x. 0) size) cs"
            using map_of_host_size [OF Some] c by simp
          from less [OF this, of a' r' "JFun (callback_of a m nx)" "?s3 None"]
          show ?thesis
            using Done None False Some c by (auto simp: handle_two_phase_ok)
        qed
      qed
    qed
  qed
qed

text \<open>
  C6. After \<^verbatim>\<open>handle(v, f, cb)\<close>, however the call ends, \<^verbatim>\<open>f.options\<close> exists,
  \<^verbatim>\<open>f.options.method\<close> is \<open>v\<close> and \<^verbatim>\<open>f.options.handled\<close> is what it was
  before (the empty sequence when it or \<^verbatim>\<open>f.options\<close> was absent) followed by one or
  more \<open>v\<close>, so it contains \<open>v\<close>.
\<close>

theorem handle_records_method:
  "\<exists>opts k. options (sfile (snd (handle rt h m nx s))) = Some opts \<and>
      method_name opts = Some m \<and>
      handled opts = Some (handled_of (sfile s) @ replicate (Suc k) m) \<and>
      m \<in> set (handled_of (sfile s) @ replicate (Suc k) m)"
proof -
  obtain k where "sfile (snd (handle rt h m nx s)) = stamped m (Suc k) (sfile s)"
    using handle_sfile by blast
  then show ?thesis
    by (auto simp: stamped_options simp del: replicate_Suc intro!: exI [of _ k])
qed

theorem handle_records_method_witness:
  "options (sfile (snd (handle ex_quiet ex_host ''onLoad'' (JFun (User 0)) ex_state))) =
     Some \<lparr>handled = Some [''onLoad''], method_name = Some ''onLoad'', collection = None\<rparr>"
  using handle_records_method [of ex_quiet ex_host "''onLoad''" "JFun (User 0)" ex_state]
  by (simp add: ex_host_def ex_state_def ex_file_def ex_app_def handle.simps Let_def
      handleError_def handleError_body_def resolve_next_def prepare_def direct_def
      empty_options_def emit_def)

section \<open>Host first, collection second\<close>

lemma two_phase_not_direct:
  assumes "isTemplates a" "\<not> isCollection a" "options f = Some opts" "collection opts = Some cn"
    "cn \<noteq> []"
  shows "\<not> direct a f" and "collection_name f = cn"
  using assms by (simp_all add: direct_def collection_name_def)

text \<open>
  C2. The host is templates-capable and not a collection, and \<^verbatim>\<open>file.options.collection\<close>
  is the (non-empty) name of a collection \<open>c\<close> of the host. Then what \<^verbatim>\<open>handle\<close>
  does is decided by the host's router. When it ends with an error, the call is the call
  of the normalized callback with that error, and the only dispatch events are the
  host's three: the collection's \<^verbatim>\<open>handle\<close> does not run. When it ends without
  error, the rest of the call is the collection's \<^verbatim>\<open>handle\<close>, started in the state that
  already records the end of the host's router, so every event of the collection comes
  after it. When it never ends, nothing follows.
\<close>

theorem host_phase_before_collection:
  assumes "isTemplates a" and "\<not> isCollection a"
    and "options (sfile s) = Some opts" and "collection opts = Some cn" and "cn \<noteq> []"
    and "map_of cs cn = Some c"
  shows "(\<forall>err. r (prepare m (sfile s)) = Done (Some err) \<longrightarrow>
            handle rt (Host a r cs) m nx s =
              (case invoke rt (callback_of a m nx) (ErrArg err)
                      (emit (RouterDone (aname a) (Some err)) (entered a m s)) of
                 (res, k', x, s') \<Rightarrow> (res, s')) \<and>
            filter is_dispatch (trace (snd (handle rt (Host a r cs) m nx s))) =
              filter is_dispatch (trace s) @
                [Emit (aname a) m, RouterHandle (aname a), RouterDone (aname a) (Some err)]) \<and>
         (r (prepare m (sfile s)) = Done None \<longrightarrow>
            handle rt (Host a r cs) m nx s =
              handle rt c m (JFun (callback_of a m nx))
                (emit (RouterDone (aname a) None) (entered a m s)) \<and>
            (\<exists>evs. trace (snd (handle rt (Host a r cs) m nx s)) =
               trace s @ [Emit (aname a) m, RouterHandle (aname a), RouterDone (aname a) None,
                          Emit (aname (happ c)) m, RouterHandle (aname (happ c))] @ evs)) \<and>
         (r (prepare m (sfile s)) = Hang \<longrightarrow>
            handle rt (Host a r cs) m nx s = (Returned, entered a m s))"
proof (intro conjI allI impI)
  fix err
  assume e: "r (prepare m (sfile s)) = Done (Some err)"
  then show "handle rt (Host a r cs) m nx s =
      (case invoke rt (callback_of a m nx) (ErrArg err)
              (emit (RouterDone (aname a) (Some err)) (entered a m s)) of
         (res, k', x, s') \<Rightarrow> (res, s'))"
    by (rule handle_error)
  obtain res k' x s' where i: "invoke rt (callback_of a m nx) (ErrArg err)
        (emit (RouterDone (aname a) (Some err)) (entered a m s)) = (res, k', x, s')"
    by (cases "invoke rt (callback_of a m nx) (ErrArg err)
        (emit (RouterDone (aname a) (Some err)) (entered a m s))") auto
  from invoke_trace [OF i] obtain evs where
    "trace s' = trace (emit (RouterDone (aname a) (Some err)) (entered a m s)) @ evs"
    and "filter is_dispatch evs = []"
    by blast
  with i show "filter is_dispatch (trace (snd (handle rt (Host a r cs) m nx s))) =
      filter is_dispatch (trace s) @
        [Emit (aname a) m, RouterHandle (aname a), RouterDone (aname a) (Some err)]"
    using e by (simp add: handle_error)
next
  assume ok: "r (prepare m (sfile s)) = Done None"
  have nd: "\<not> direct a (sfile s)" and cn: "collection_name (sfile s) = cn"
    using two_phase_not_direct [OF assms(1-5)] by simp_all
  show eq: "handle rt (Host a r cs) m nx s =
      handle rt c m (JFun (callback_of a m nx)) (emit (RouterDone (aname a) None) (entered a m s))"
    using assms(6) ok nd by (simp add: handle_two_phase_ok cn)
  obtain a' r' cs' where c: "c = Host a' r' cs'" by (cases c)
  obtain evs where "trace (snd (handle rt (Host a' r' cs') m (JFun (callback_of a m nx))
        (emit (RouterDone (aname a) None) (entered a m s)))) =
      trace (emit (RouterDone (aname a) None) (entered a m s)) @
        [Emit (aname a') m, RouterHandle (aname a')] @ evs"
    using handle_trace_begins by blast
  then show "\<exists>evs. trace (snd (handle rt (Host a r cs) m nx s)) =
      trace s @ [Emit (aname a) m, RouterHandle (aname a), RouterDone (aname a) None,
                 Emit (aname (happ c)) m, RouterHandle (aname (happ c))] @ evs"
    by (simp add: eq c)
next
  assume "r (prepare m (sfile s)) = Hang"
  then show "handle rt (Host a r cs) m nx s = (Returned, entered a m s)"
    by (rule handle_hang)
qed

theorem host_phase_before_collection_witness:
  "trace (snd (handle ex_quiet ex_host ''onLoad'' (JFun (User 0)) ex_page_state)) =
     [Emit ''app'' ''onLoad'', RouterHandle ''app'', RouterDone ''app'' None,
      Emit ''pages'' ''onLoad'', RouterHandle ''pages'', RouterDone ''pages'' None,
      Called 0 NullFile] \<and>
   filter is_dispatch
     (trace (snd (handle ex_quiet ex_failing_host ''onLoad'' (JFun (User 0)) ex_page_state))) =
     [Emit ''app'' ''onLoad'', RouterHandle ''app'', RouterDone ''app'' (Some ex_error)]"
proof -
  let ?pages = "Host ex_pages (\<lambda>f. Done None) []"
  have h1: "isTemplates ex_app" and h2: "\<not> isCollection ex_app"
    by (simp_all add: ex_app_def)
  have h3: "options (sfile ex_page_state) =
      Some \<lparr>handled = None, method_name = None, collection = Some ''pages''\<rparr>"
    by (simp add: ex_page_state_def ex_page_def)
  have h4: "collection \<lparr>handled = None, method_name = None, collection = Some ''pages''\<rparr> =
      Some ''pages''"
    by simp
  have h5: "''pages'' \<noteq> []"
    by simp
  have h6: "map_of [(''pages'', ?pages)] ''pages'' = Some ?pages"
    by simp
  have ok: "trace (snd (handle ex_quiet ex_host ''onLoad'' (JFun (User 0)) ex_page_state)) =
     [Emit ''app'' ''onLoad'', RouterHandle ''app'', RouterDone ''app'' None,
      Emit ''pages'' ''onLoad'', RouterHandle ''pages'', RouterDone ''pages'' None,
      Called 0 NullFile]"
    using host_phase_before_collection [where rt = ex_quiet and r = "\<lambda>f. Done None"
        and m = "''onLoad''" and nx = "JFun (User 0)", OF h1 h2 h3 h4 h5 h6]
    by (simp add: ex_host_def ex_pages_def ex_app_def handle.simps Let_def callback_of_def
        handleError_def handleError_body_def resolve_next_def direct_def entered_def
        ex_page_state_def ex_page_def ex_file_def prepare_def emit_def)
  have "filter is_dispatch
     (trace (snd (handle ex_quiet (Host ex_app (\<lambda>f. Done (Some ex_error)) [(''pages'', ?pages)])
        ''onLoad'' (JFun (User 0)) ex_page_state))) =
     filter is_dispatch (trace ex_page_state) @
       [Emit (aname ex_app) ''onLoad'', RouterHandle (aname ex_app),
        RouterDone (aname ex_app) (Some ex_error)]"
    using host_phase_before_collection [where rt = ex_quiet and r = "\<lambda>f. Done (Some ex_error)"
        and m = "''onLoad''" and nx = "JFun (User 0)", OF h1 h2 h3 h4 h5 h6]
    by blast
  then have failed: "filter is_dispatch
     (trace (snd (handle ex_quiet ex_failing_host ''onLoad'' (JFun (User 0)) ex_page_state))) =
     [Emit ''app'' ''onLoad'', RouterHandle ''app'', RouterDone ''app'' (Some ex_error)]"
    by (simp add: ex_failing_host_def ex_page_state_def ex_app_def)
  from ok failed show ?thesis by simp
qed

section \<open>handleOnce\<close>

lemma handled_of_member:
  "m \<in> set (handled_of f) \<Longrightarrow>
   \<exists>opts hs. options f = Some opts \<and> handled opts = Some hs \<and> m \<in> set hs"
  by (cases "options f"; cases "handled (opts_of f)")
    (auto simp: handled_of_def opts_of_def empty_options_def)

lemma handled_of_normalized [simp]: "handled_of (sfile (normalized s)) = handled_of (sfile s)"
  by (simp add: normalized_def handled_of_def opts_of_def split: option.splits)

lemma direct_normalized [simp]: "direct a (sfile (normalized s)) = direct a (sfile s)"
  by (simp add: normalized_def direct_def split: option.splits)

lemma trace_normalized [simp]: "trace (normalized s) = trace s"
  by (simp add: normalized_def split: option.splits)

lemma normalized_present:
  "m \<in> set (handled_of (sfile s)) \<Longrightarrow> normalized s = s"
  by (cases "options (sfile s)"; cases "handled (opts_of (sfile s))")
    (auto simp: normalized_def handled_of_def opts_of_def empty_options_def)

lemma handleOnce_unfold:
  "options (sfile s) = Some opts \<Longrightarrow>
   handleOnce rt h m nx s =
     (if m \<in> set (handled_of (sfile s)) then
        (case (if is_function nx then nx else of_uval (nxt (sfile s))) of
           JFun k \<Rightarrow> (case invoke rt k NullFile (normalized s) of (res, k', x, s') \<Rightarrow> (res, s'))
         | JUndefined \<Rightarrow> (Threw (TypeError ''next is not a function''), normalized s)
         | JString v \<Rightarrow> (Threw (TypeError ''next is not a function''), normalized s))
      else handle rt h m (if is_function nx then nx else of_uval (nxt (sfile s))) (normalized s))"
  by (cases "handled opts")
    (simp_all add: handleOnce_def Let_def normalized_def handled_of_def opts_of_def
      split: jsval.splits)

lemma handleOnce_skip:
  assumes "m \<in> set (handled_of (sfile s))"
  shows "handleOnce rt h m (JFun k) s =
     (case invoke rt k NullFile s of (res, k', x, s') \<Rightarrow> (res, s'))"
proof -
  from assms obtain opts where "options (sfile s) = Some opts"
    using handled_of_member by blast
  from handleOnce_unfold [OF this] assms show ?thesis
    by (simp add: normalized_present)
qed

lemma handleOnce_present_sfile:
  assumes "m \<in> set (handled_of (sfile s))"
  shows "sfile (snd (handleOnce rt h m nx s)) = sfile s"
proof -
  from assms obtain opts where "options (sfile s) = Some opts"
    using handled_of_member by blast
  from handleOnce_unfold [OF this] assms show ?thesis
    by (auto simp: normalized_present split: jsval.splits prod.splits dest: invoke_sfile)
qed

lemma handleOnce_no_dispatch_when_present:
  assumes "m \<in> set (handled_of (sfile s))"
  shows "filter is_dispatch (trace (snd (handleOnce rt h m nx s))) = filter is_dispatch (trace s)"
proof -
  from assms obtain opts where o: "options (sfile s) = Some opts"
    using handled_of_member by blast
  let ?nx = "if is_function nx then nx else of_uval (nxt (sfile s))"
  show ?thesis
  proof (cases ?nx)
    case (JFun k)
    with handleOnce_unfold [OF o, of rt h m nx] assms invoke_trace_snd [of rt k NullFile s]
    show ?thesis
      by (auto simp: normalized_present split: prod.splits)
  next
    case JUndefined
    with handleOnce_unfold [OF o, of rt h m nx] assms show ?thesis
      by (simp add: normalized_present)
  next
    case (JString v)
    with handleOnce_unfold [OF o, of rt h m nx] assms show ?thesis
      by (simp add: normalized_present)
  qed
qed

lemma handleOnce_records:
  assumes "options (sfile s) = Some opts"
  shows "m \<in> set (handled_of (sfile (snd (handleOnce rt h m nx s))))"
proof (cases "m \<in> set (handled_of (sfile s))")
  case True
  then show ?thesis
    by (simp add: handleOnce_present_sfile)
next
  case False
  let ?nx = "if is_function nx then nx else of_uval (nxt (sfile s))"
  from False handleOnce_unfold [OF assms, of rt h m nx]
  have "handleOnce rt h m nx s = handle rt h m ?nx (normalized s)"
    by simp
  moreover obtain j where "sfile (snd (handle rt h m ?nx (normalized s))) =
      stamped m (Suc j) (sfile (normalized s))"
    using handle_sfile by blast
  ultimately show ?thesis
    by (simp del: replicate_Suc)
qed

text \<open>
  What does hold of two calls in a row. After a first \<^verbatim>\<open>handleOnce(v, f, cb)\<close>, however
  it ended, a second call adds no dispatch event: \<^verbatim>\<open>handle\<close> does not run again. When
  the file has \<^verbatim>\<open>options\<close>, \<open>v\<close> is in \<^verbatim>\<open>f.options.handled\<close> after the first
  call, and for a callback \<open>k\<close> that is a function the second call is exactly the call
  \<^verbatim>\<open>k(null, f)\<close>.
\<close>

theorem handleOnce_second_call_skips:
  assumes "handleOnce rt h m nx s = (r1, s1)"
  shows "filter is_dispatch (trace (snd (handleOnce rt h m nx s1))) = filter is_dispatch (trace s1) \<and>
         (options (sfile s) \<noteq> None \<longrightarrow>
            m \<in> set (handled_of (sfile s1)) \<and>
            (\<forall>k. nx = JFun k \<longrightarrow>
               handleOnce rt h m nx s1 =
                 (case invoke rt k NullFile s1 of (res, k', x, s') \<Rightarrow> (res, s'))))"
proof (cases "options (sfile s)")
  case None
  then have "s1 = s"
    using assms by (simp add: handleOnce_no_options)
  with None show ?thesis
    by (simp add: handleOnce_no_options)
next
  case (Some opts)
  have mem: "m \<in> set (handled_of (sfile s1))"
    using handleOnce_records [OF Some, of m rt h nx] assms by simp
  show ?thesis
    using Some mem handleOnce_no_dispatch_when_present [OF mem, of rt h nx]
      handleOnce_skip [OF mem, of rt h]
    by auto
qed

theorem handleOnce_second_call_skips_example:
  "handleOnce ex_quiet ex_host ''onLoad'' (JFun (User 0))
     (snd (handleOnce ex_quiet ex_host ''onLoad'' (JFun (User 0)) ex_ready)) =
   (Returned,
    emit (Called 0 NullFile) (snd (handleOnce ex_quiet ex_host ''onLoad'' (JFun (User 0)) ex_ready)))"
proof -
  have h1: "options (sfile ex_ready) = Some empty_options"
    by (simp add: ex_ready_def)
  have h2: "handleOnce ex_quiet ex_host ''onLoad'' (JFun (User 0)) ex_ready =
      (fst (handleOnce ex_quiet ex_host ''onLoad'' (JFun (User 0)) ex_ready),
       snd (handleOnce ex_quiet ex_host ''onLoad'' (JFun (User 0)) ex_ready))"
    by simp
  show ?thesis
    using handleOnce_second_call_skips [OF h2] h1 by simp
qed

section \<open>How often a method is recorded\<close>

lemma count_list_replicate_same [simp]: "count_list (replicate k m) m = k"
  by (induction k) simp_all

lemma count_list_replicate: "count_list (xs @ replicate k m) m = count_list xs m + k"
  by simp

lemma handled_of_prepare [simp]: "handled_of (prepare m f) = handled_of f @ [m]"
  by (simp add: prepare_stamped)

lemma handle_times_count:
  "count_list (handled_of (sfile s)) m + n \<le>
     count_list (handled_of (sfile (handle_times n rt h m nx s))) m"
proof (induction n arbitrary: s)
  case 0
  show ?case by simp
next
  case (Suc n)
  obtain k where "sfile (snd (handle rt h m nx s)) = stamped m (Suc k) (sfile s)"
    using handle_sfile by blast
  then have "count_list (handled_of (sfile (snd (handle rt h m nx s)))) m =
      count_list (handled_of (sfile s)) m + Suc k"
    by (simp add: count_list_replicate del: replicate_Suc)
  with Suc [of "snd (handle rt h m nx s)"] show ?case
    by simp
qed

lemma handle_times_direct:
  "direct a (sfile s) \<Longrightarrow>
   handled_of (sfile (handle_times n rt (Host a r cs) m nx s)) = handled_of (sfile s) @ replicate n m"
proof (induction n arbitrary: s)
  case 0
  show ?case by simp
next
  case (Suc n)
  have f: "sfile (snd (handle rt (Host a r cs) m nx s)) = prepare m (sfile s)"
    using Suc.prems by (rule handle_direct_sfile)
  then have "direct a (sfile (snd (handle rt (Host a r cs) m nx s)))"
    using Suc.prems by simp
  from Suc.IH [OF this] f show ?case
    by (simp add: replicate_append_same)
qed

lemma handleOnce_direct_step:
  assumes "direct a (sfile s)" and "count_list (handled_of (sfile s)) m \<le> 1"
  shows "direct a (sfile (snd (handleOnce rt (Host a r cs) m nx s))) \<and>
         count_list (handled_of (sfile (snd (handleOnce rt (Host a r cs) m nx s)))) m \<le> 1"
proof (cases "options (sfile s)")
  case None
  with assms show ?thesis
    by (simp add: handleOnce_no_options)
next
  case (Some opts)
  show ?thesis
  proof (cases "m \<in> set (handled_of (sfile s))")
    case True
    with assms show ?thesis
      by (simp add: handleOnce_present_sfile)
  next
    case False
    let ?nx = "if is_function nx then nx else of_uval (nxt (sfile s))"
    have "handleOnce rt (Host a r cs) m nx s = handle rt (Host a r cs) m ?nx (normalized s)"
      using handleOnce_unfold [OF Some] False by simp
    moreover have "sfile (snd (handle rt (Host a r cs) m ?nx (normalized s))) =
        prepare m (sfile (normalized s))"
      using assms(1) by (simp add: handle_direct_sfile)
    ultimately show ?thesis
      using assms(1) False by simp
  qed
qed

lemma handleOnce_times_direct:
  "direct a (sfile s) \<Longrightarrow> count_list (handled_of (sfile s)) m \<le> 1 \<Longrightarrow>
   count_list (handled_of (sfile (handleOnce_times n rt (Host a r cs) m nx s))) m \<le> 1"
proof (induction n arbitrary: s)
  case 0
  then show ?case by simp
next
  case (Suc n)
  from handleOnce_direct_step [OF Suc.prems, of rt r cs nx] Suc.IH show ?case
    by simp
qed

lemma handleOnce_times_present:
  "m \<in> set (handled_of (sfile s)) \<Longrightarrow> sfile (handleOnce_times n rt h m nx s) = sfile s"
proof (induction n arbitrary: s)
  case 0
  show ?case by simp
next
  case (Suc n)
  have "sfile (snd (handleOnce rt h m nx s)) = sfile s"
    using Suc.prems by (rule handleOnce_present_sfile)
  with Suc.IH [of "snd (handleOnce rt h m nx s)"] Suc.prems show ?case
    by simp
qed

lemma handle_once_sfile:
  assumes "direct a (sfile s) \<or> r (prepare m (sfile s)) \<noteq> Done None \<or>
           map_of cs (collection_name (sfile s)) = None"
  shows "sfile (snd (handle rt (Host a r cs) m nx s)) = prepare m (sfile s)"
proof (cases "direct a (sfile s)")
  case True
  then show ?thesis by (rule handle_direct_sfile)
next
  case False
  show ?thesis
  proof (cases "r (prepare m (sfile s))")
    case Hang
    then show ?thesis by (simp add: handle_hang)
  next
    case (Done e)
    show ?thesis
    proof (cases e)
      case (Some err)
      with Done show ?thesis
        using invoke_sfile_snd [of rt "callback_of a m nx" "ErrArg err"
            "emit (RouterDone (aname a) (Some err)) (entered a m s)"]
        by (auto simp: handle_error split: prod.splits)
    next
      case None
      with Done False assms have "map_of cs (collection_name (sfile s)) = None"
        by simp
      with Done None False show ?thesis
        by (simp add: handle_two_phase_ok)
    qed
  qed
qed

lemma handle_collection_sfile:
  assumes "\<not> direct a (sfile s)" "r (prepare m (sfile s)) = Done None"
    "map_of cs (collection_name (sfile s)) = Some c"
  shows "\<exists>k. sfile (snd (handle rt (Host a r cs) m nx s)) = stamped m (Suc (Suc k)) (sfile s)"
    and "direct (happ c) (sfile s) \<Longrightarrow>
         sfile (snd (handle rt (Host a r cs) m nx s)) = prepare m (prepare m (sfile s))"
proof -
  let ?s3 = "emit (RouterDone (aname a) None) (entered a m s)"
  have eq: "handle rt (Host a r cs) m nx s = handle rt c m (JFun (callback_of a m nx)) ?s3"
    using assms by (simp add: handle_two_phase_ok)
  obtain k where "sfile (snd (handle rt c m (JFun (callback_of a m nx)) ?s3)) =
      stamped m (Suc k) (sfile ?s3)"
    using handle_sfile by blast
  then have "sfile (snd (handle rt (Host a r cs) m nx s)) = stamped m (Suc (Suc k)) (sfile s)"
    by (simp add: eq prepare_stamped stamped_stamped del: replicate_Suc)
  then show "\<exists>k. sfile (snd (handle rt (Host a r cs) m nx s)) = stamped m (Suc (Suc k)) (sfile s)"
    by blast
  assume d: "direct (happ c) (sfile s)"
  obtain a' r' cs' where c: "c = Host a' r' cs'" by (cases c)
  from d c have "direct a' (sfile ?s3)" by simp
  then show "sfile (snd (handle rt (Host a r cs) m nx s)) = prepare m (prepare m (sfile s))"
    using handle_direct_sfile [of a' ?s3 rt r' cs' m "JFun (callback_of a m nx)"]
    by (simp add: eq c)
qed

text \<open>
  C8, the claim as it is written: \<open>n\<close> calls of \<^verbatim>\<open>handle\<close> leave \<open>n\<close>
  occurrences of the method, and calls of \<^verbatim>\<open>handleOnce\<close> leave at most one. It fails for
  a file that belongs to a collection of a templates-capable host, when the host's router
  ends without error: line 94 then calls the collection's \<^verbatim>\<open>handle\<close>, which runs line 73
  again. One call of either leaves the method twice.
\<close>

theorem two_phase_appends_twice:
  "handled_of (sfile (handle_times (Suc 0) ex_quiet ex_host ''onLoad'' (JFun (User 0))
       \<lparr>sfile = ex_page, trace = []\<rparr>)) = [''onLoad'', ''onLoad''] \<and>
   handled_of (sfile (handleOnce_times (Suc 0) ex_quiet ex_host ''onLoad'' (JFun (User 0))
       \<lparr>sfile = ex_page, trace = []\<rparr>)) = [''onLoad'', ''onLoad'']"
  by (simp add: ex_host_def ex_page_def ex_file_def ex_app_def ex_pages_def handle.simps
      handleOnce_def Let_def handleError_def handleError_body_def resolve_next_def prepare_def
      direct_def collection_name_def emit_def handled_of_def opts_of_def)

text \<open>
  C8, amended. Every call of \<^verbatim>\<open>handle\<close> appends the method. It appends it exactly once
  when dispatch is direct (line 81: the host is not templates-capable, or is a collection,
  or the file names no collection), when the host's router ends with an error or never
  calls back, and when the host has no collection of the name. It appends it at least
  twice when two-phase dispatch reaches the named collection, whose own \<^verbatim>\<open>handle\<close>
  appends it again: exactly twice when the collection dispatches directly. So \<open>n\<close>
  calls add at least \<open>n\<close> occurrences, and exactly \<open>n\<close> under direct dispatch. Under
  direct dispatch, calls of \<^verbatim>\<open>handleOnce\<close> on a file with at most one occurrence leave
  at most one. Once the method is recorded, calls of \<^verbatim>\<open>handleOnce\<close> leave the file as it
  is, on every host.
\<close>

theorem handled_occurrences:
  "(direct a (sfile s) \<or> r (prepare m (sfile s)) \<noteq> Done None \<or>
      map_of cs (collection_name (sfile s)) = None \<longrightarrow>
      handled_of (sfile (snd (handle rt (Host a r cs) m nx s))) = handled_of (sfile s) @ [m]) \<and>
   (\<forall>c. \<not> direct a (sfile s) \<and> r (prepare m (sfile s)) = Done None \<and>
        map_of cs (collection_name (sfile s)) = Some c \<longrightarrow>
      (\<exists>k. handled_of (sfile (snd (handle rt (Host a r cs) m nx s))) =
             handled_of (sfile s) @ replicate (Suc (Suc k)) m) \<and>
      (direct (happ c) (sfile s) \<longrightarrow>
         handled_of (sfile (snd (handle rt (Host a r cs) m nx s))) = handled_of (sfile s) @ [m, m])) \<and>
   count_list (handled_of (sfile s)) m + n \<le>
     count_list (handled_of (sfile (handle_times n rt (Host a r cs) m nx s))) m \<and>
   (direct a (sfile s) \<longrightarrow>
      handled_of (sfile (handle_times n rt (Host a r cs) m nx s)) =
        handled_of (sfile s) @ replicate n m) \<and>
   (direct a (sfile s) \<and> count_list (handled_of (sfile s)) m \<le> 1 \<longrightarrow>
      count_list (handled_of (sfile (handleOnce_times n rt (Host a r cs) m nx s))) m \<le> 1) \<and>
   (m \<in> set (handled_of (sfile s)) \<longrightarrow>
      sfile (handleOnce_times n rt (Host a r cs) m nx s) = sfile s)"
proof -
  have once: "direct a (sfile s) \<or> r (prepare m (sfile s)) \<noteq> Done None \<or>
      map_of cs (collection_name (sfile s)) = None \<longrightarrow>
      handled_of (sfile (snd (handle rt (Host a r cs) m nx s))) = handled_of (sfile s) @ [m]"
    by (auto simp: handle_once_sfile)
  have twice: "\<forall>c. \<not> direct a (sfile s) \<and> r (prepare m (sfile s)) = Done None \<and>
        map_of cs (collection_name (sfile s)) = Some c \<longrightarrow>
      (\<exists>k. handled_of (sfile (snd (handle rt (Host a r cs) m nx s))) =
             handled_of (sfile s) @ replicate (Suc (Suc k)) m) \<and>
      (direct (happ c) (sfile s) \<longrightarrow>
         handled_of (sfile (snd (handle rt (Host a r cs) m nx s))) = handled_of (sfile s) @ [m, m])"
  proof (intro allI impI conjI)
    fix c
    assume h: "\<not> direct a (sfile s) \<and> r (prepare m (sfile s)) = Done None \<and>
        map_of cs (collection_name (sfile s)) = Some c"
    then have h': "\<not> direct a (sfile s)" "r (prepare m (sfile s)) = Done None"
      "map_of cs (collection_name (sfile s)) = Some c"
      by simp_all
    from handle_collection_sfile(1) [where r = r and rt = rt and nx = nx, OF h'] obtain k where
      "sfile (snd (handle rt (Host a r cs) m nx s)) = stamped m (Suc (Suc k)) (sfile s)"
      by blast
    then have "handled_of (sfile (snd (handle rt (Host a r cs) m nx s))) =
        handled_of (sfile s) @ replicate (Suc (Suc k)) m"
      by (simp del: replicate_Suc)
    then show "\<exists>k. handled_of (sfile (snd (handle rt (Host a r cs) m nx s))) =
        handled_of (sfile s) @ replicate (Suc (Suc k)) m"
      by blast
    assume "direct (happ c) (sfile s)"
    from handle_collection_sfile(2) [where r = r and rt = rt and nx = nx, OF h' this]
    show "handled_of (sfile (snd (handle rt (Host a r cs) m nx s))) = handled_of (sfile s) @ [m, m]"
      by simp
  qed
  show ?thesis
    using once twice handle_times_count [of s m n rt "Host a r cs" nx]
      handle_times_direct [of a s n rt r cs m nx]
      handleOnce_times_direct [of a s m n rt r cs nx]
      handleOnce_times_present [of m s n rt "Host a r cs" nx]
    by blast
qed

theorem handled_occurrences_witness:
  "handled_of (sfile (handle_times (Suc (Suc 0)) ex_quiet
       (Host ex_pages (\<lambda>f. Done None) []) ''onLoad'' (JFun (User 0)) ex_ready)) =
     [''onLoad'', ''onLoad''] \<and>
   count_list (handled_of (sfile (handleOnce_times (Suc (Suc 0)) ex_quiet
       (Host ex_pages (\<lambda>f. Done None) []) ''onLoad'' (JFun (User 0)) ex_ready))) ''onLoad'' \<le> 1 \<and>
   handled_of (sfile (snd (handle ex_quiet ex_host ''onLoad'' (JFun (User 0)) ex_page_state))) =
     [''onLoad'', ''onLoad''] \<and>
   handled_of (sfile (snd (handle ex_quiet ex_failing_host ''onLoad'' (JFun (User 0))
       ex_page_state))) = [''onLoad'']"
proof -
  let ?pages = "Host ex_pages (\<lambda>f. Done None) []"
  have h1: "direct ex_pages (sfile ex_ready)"
    by (simp add: direct_def ex_pages_def)
  have h2: "count_list (handled_of (sfile ex_ready)) ''onLoad'' \<le> 1"
    by (simp add: handled_of_def opts_of_def ex_ready_def empty_options_def)
  have h3: "handled_of (sfile ex_ready) = []"
    by (simp add: handled_of_def opts_of_def ex_ready_def empty_options_def)
  have direct_calls: "handled_of (sfile (handle_times (Suc (Suc 0)) ex_quiet ?pages ''onLoad''
        (JFun (User 0)) ex_ready)) = [''onLoad'', ''onLoad''] \<and>
      count_list (handled_of (sfile (handleOnce_times (Suc (Suc 0)) ex_quiet ?pages ''onLoad''
        (JFun (User 0)) ex_ready))) ''onLoad'' \<le> 1"
    using handled_occurrences [of ex_pages ex_ready "\<lambda>f. Done None" "''onLoad''" "[]" ex_quiet
        "JFun (User 0)" "Suc (Suc 0)"] h1 h2 h3
    by simp
  have p1: "\<not> direct ex_app (sfile ex_page_state)"
    and p2: "collection_name (sfile ex_page_state) = ''pages''"
    and p3: "handled_of (sfile ex_page_state) = []"
    and p4: "direct (happ ?pages) (sfile ex_page_state)"
    by (simp_all add: direct_def collection_name_def handled_of_def opts_of_def ex_app_def
        ex_pages_def ex_page_state_def ex_page_def)
  have reached: "handled_of (sfile (snd (handle ex_quiet
        (Host ex_app (\<lambda>f. Done None) [(''pages'', ?pages)]) ''onLoad'' (JFun (User 0))
        ex_page_state))) = [''onLoad'', ''onLoad'']"
    using handled_occurrences [of ex_app ex_page_state "\<lambda>f. Done None" "''onLoad''"
        "[(''pages'', ?pages)]" ex_quiet "JFun (User 0)" 0] p1 p2 p3 p4
    by simp
  have failed: "handled_of (sfile (snd (handle ex_quiet
        (Host ex_app (\<lambda>f. Done (Some ex_error)) [(''pages'', ?pages)]) ''onLoad'' (JFun (User 0))
        ex_page_state))) = [''onLoad'']"
    using handled_occurrences [of ex_app ex_page_state "\<lambda>f. Done (Some ex_error)" "''onLoad''"
        "[(''pages'', ?pages)]" ex_quiet "JFun (User 0)" 0] p3
    by simp
  from direct_calls reached failed show ?thesis
    by (simp add: ex_host_def ex_failing_host_def)
qed

end
